(* ===== verification/Prelude.thy ===== *)
theory Prelude
  imports Complex_Main
begin

text \<open>
  Shared vocabulary of the Tado development: the types the component's values have
  (timestamps, Tado ids, data ids), the Python exceptions that can cross its code, the
  log records its logger emits, and Python's insertion-ordered dictionary assignment
  on association lists, with the lemmas on it that the component theories share.
  The collection \<open>dict_simps\<close> gathers the rewrite rules for dictionaries.
\<close>

named_theorems dict_simps "rewrite rules for Python dictionaries modelled as association lists"

section \<open>Types of the model\<close>

text \<open>
  \<open>datetime\<close> values are read at microsecond resolution; a timestamp is the number of
  microseconds since the epoch and a \<open>timedelta\<close> is a difference of two of them.
  Python's ints are unbounded, so both are \<open>int\<close>.
\<close>

type_synonym time = int
type_synonym tado_id = nat
type_synonym data_id = string

text \<open>
  The exceptions that matter to the component: the two that \<open>setup\<close> catches
  (\<open>RuntimeError\<close>, \<open>urllib.error.HTTPError\<close>), the \<open>IndexError\<close> of
  \<open>getDevices()[0]\<close> on an empty list, the \<open>KeyError\<close> of a missing configuration key
  and the \<open>TypeError\<close> of indexing a value that is not a dictionary, voluptuous'
  \<open>Invalid\<close> of a configuration the schema rejects, and every other exception the client
  library may raise.
\<close>

datatype py_exception =
    RuntimeError | HTTPError | IndexError | KeyError | TypeError | Invalid | OtherException

text \<open>
  The log records of \<open>_LOGGER\<close> in \<open>src/homeassistant/components/tado/__init__.py\<close>,
  one constructor per call site, with the arguments the call formats.
\<close>

datatype log_entry =
    Log_query_zone tado_id string
  | Log_query_device tado_id string
  | Log_unable_to_connect tado_id tado_id
  | Log_setup_failed

section \<open>Python dictionaries\<close>

text \<open>
  A Python dictionary keeps its keys in insertion order, and assigning to a key that is
  present keeps its position. As an association list with distinct keys:
\<close>

fun dict_set :: "('k \<times> 'v) list \<Rightarrow> 'k \<Rightarrow> 'v \<Rightarrow> ('k \<times> 'v) list" where
  "dict_set [] k v = [(k, v)]"
| "dict_set ((k', v') # xs) k v =
     (if k' = k then (k, v) # xs else (k', v') # dict_set xs k v)"

lemma map_of_dict_set [dict_simps]: "map_of (dict_set xs k v) = (map_of xs)(k \<mapsto> v)"
  by (induction xs) (auto simp: fun_eq_iff)

lemma keys_dict_set [dict_simps]: "fst ` set (dict_set xs k v) = insert k (fst ` set xs)"
  by (induction xs k v rule: dict_set.induct) (auto simp: image_iff)

lemma distinct_dict_set [dict_simps]:
  "distinct (map fst xs) \<Longrightarrow> distinct (map fst (dict_set xs k v))"
proof (induction xs)
  case Nil
  then show ?case by simp
next
  case (Cons p xs)
  obtain k' v' where p: "p = (k', v')" by fastforce
  have "fst ` set (dict_set xs k v) = insert k (fst ` set xs)"
    by (rule keys_dict_set)
  with Cons p show ?case by auto
qed

lemma dict_set_present [dict_simps]:
  "k \<in> fst ` set xs \<Longrightarrow> map fst (dict_set xs k v) = map fst xs"
  by (induction xs k v rule: dict_set.induct) (auto simp: image_iff)

lemma dict_set_absent [dict_simps]:
  "k \<notin> fst ` set xs \<Longrightarrow> dict_set xs k v = xs @ [(k, v)]"
  by (induction xs) auto

lemma map_of_rev_distinct [dict_simps]:
  "distinct (map fst xs) \<Longrightarrow> map_of (rev xs) = map_of xs"
proof (induction xs)
  case Nil
  then show ?case by simp
next
  case (Cons p xs)
  then have "fst p \<notin> fst ` set xs" by simp
  then have "dom [fst p \<mapsto> snd p] \<inter> dom (map_of xs) = {}"
    by (simp add: dom_map_of_conv_image_fst)
  then have "[fst p \<mapsto> snd p] ++ map_of xs = map_of xs ++ [fst p \<mapsto> snd p]"
    by (rule map_add_comm)
  with Cons show ?case by (cases p) simp
qed

section \<open>Generic lemmas\<close>

lemma dom_map_upd_keys [simp]:
  "k \<in> A \<Longrightarrow> dom m = A \<Longrightarrow> dom (m(k \<mapsto> v)) = A"
  by auto

end
