(* ===== verification/Throttle.thy ===== *)
theory Throttle
  imports Prelude
begin

text \<open>
  The \<open>Throttle(min_time)\<close> decorator of \<open>homeassistant.util\<close>, which
  \<open>TadoDataStore.update\<close> is wrapped in. The decorator keeps, on the host object, a
  lock and the timestamp of the last effective execution. A call first tries to take the
  lock without blocking (returning \<open>None\<close> if it is held); it forces execution when the
  caller passes \<open>no_throttle=True\<close> or the method never ran; otherwise it executes only
  if more than \<open>min_time\<close> has passed since the last execution. After the method
  returns it stores the current time; if the method raises, the timestamp is left as it
  was and the exception propagates; in every case the lock is released.

  The method is a state transformer that may raise: an exception leaves the state the
  method had reached (Python does not roll back mutations). The host's throttle record
  is read and written through a getter and a setter, so that the decorator is generic in
  the host it lives on.
\<close>

record throttle_state =
  lock_held :: bool
  last_call :: "time option"

definition throttle_init :: throttle_state where
  "throttle_init = \<lparr>lock_held = False, last_call = None\<rparr>"

text \<open>What a throttled call returns: \<open>None\<close> from \<open>throttled_value()\<close>, or the method's result.\<close>

datatype 'r throttled = Throttled | Ran 'r

text \<open>
  The decision the wrapper takes once it holds the lock:
  \<open>force or utcnow() - throttle[1] > self.min_time\<close> with
  \<open>force = no_throttle or not throttle[1]\<close>.
\<close>

definition throttle_due :: "int \<Rightarrow> bool \<Rightarrow> time \<Rightarrow> throttle_state \<Rightarrow> bool" where
  "throttle_due min_time no_throttle now th =
     (case last_call th of
        None \<Rightarrow> True
      | Some t \<Rightarrow> no_throttle \<or> min_time < now - t)"

definition throttle_call ::
  "int \<Rightarrow> bool \<Rightarrow> time \<Rightarrow> time \<Rightarrow> ('s \<Rightarrow> throttle_state) \<Rightarrow>
   (throttle_state \<Rightarrow> 's \<Rightarrow> 's) \<Rightarrow> ('s \<Rightarrow> (py_exception + 'r) \<times> 's) \<Rightarrow>
   's \<Rightarrow> (py_exception + 'r throttled) \<times> 's" where
  "throttle_call min_time no_throttle t_check t_done get put method s =
     (let th = get s in
      if lock_held th then (Inr Throttled, s)
      else if throttle_due min_time no_throttle t_check th then
        (case method (put (th\<lparr>lock_held := True\<rparr>) s) of
           (Inl e, s') \<Rightarrow> (Inl e, put ((get s')\<lparr>lock_held := False\<rparr>) s')
         | (Inr r, s') \<Rightarrow>
             (Inr (Ran r), put ((get s')\<lparr>last_call := Some t_done, lock_held := False\<rparr>) s'))
      else (Inr Throttled, s))"

text \<open>
  The getter and setter must behave like a field of the host: reading back what was
  written, and writing what was read changes nothing.
\<close>

definition field_lens :: "('s \<Rightarrow> 'a) \<Rightarrow> ('a \<Rightarrow> 's \<Rightarrow> 's) \<Rightarrow> bool" where
  "field_lens get put \<longleftrightarrow>
     (\<forall>a s. get (put a s) = a) \<and> (\<forall>s. put (get s) s = s) \<and>
     (\<forall>a b s. put a (put b s) = put a s)"

text \<open>The method leaves the host's throttle record as it found it.\<close>

definition keeps_field :: "('s \<Rightarrow> 'a) \<Rightarrow> ('s \<Rightarrow> 'e \<times> 's) \<Rightarrow> bool" where
  "keeps_field get method \<longleftrightarrow> (\<forall>s r s'. method s = (r, s') \<longrightarrow> get s' = get s)"

section \<open>Behaviour of the wrapper on each branch\<close>

lemma throttle_call_held:
  "lock_held (get s) \<Longrightarrow>
   throttle_call m nt tc td get put f s = (Inr Throttled, s)"
  by (simp add: throttle_call_def)

lemma throttle_call_not_due:
  "\<not> lock_held (get s) \<Longrightarrow> \<not> throttle_due m nt tc (get s) \<Longrightarrow>
   throttle_call m nt tc td get put f s = (Inr Throttled, s)"
  by (simp add: throttle_call_def)

lemma throttle_call_ran:
  "\<not> lock_held (get s) \<Longrightarrow> throttle_due m nt tc (get s) \<Longrightarrow>
   f (put ((get s)\<lparr>lock_held := True\<rparr>) s) = (Inr r, s') \<Longrightarrow>
   throttle_call m nt tc td get put f s =
     (Inr (Ran r), put ((get s')\<lparr>last_call := Some td, lock_held := False\<rparr>) s')"
  by (simp add: throttle_call_def)

lemma throttle_call_raised:
  "\<not> lock_held (get s) \<Longrightarrow> throttle_due m nt tc (get s) \<Longrightarrow>
   f (put ((get s)\<lparr>lock_held := True\<rparr>) s) = (Inl e, s') \<Longrightarrow>
   throttle_call m nt tc td get put f s =
     (Inl e, put ((get s')\<lparr>lock_held := False\<rparr>) s')"
  by (simp add: throttle_call_def)

lemma throttle_due_forced [simp]: "throttle_due m True tc th"
  by (simp add: throttle_due_def split: option.split)

lemma throttle_due_first [simp]: "last_call th = None \<Longrightarrow> throttle_due m nt tc th"
  by (simp add: throttle_due_def)

lemma throttle_due_last:
  "last_call th = Some t \<Longrightarrow> throttle_due m nt tc th \<longleftrightarrow> nt \<or> m < tc - t"
  by (simp add: throttle_due_def)

text \<open>Every path releases the lock the wrapper took (the \<open>finally\<close> clause).\<close>

lemma throttle_call_lock_released:
  assumes lens: "field_lens get put"
    and free: "\<not> lock_held (get s)"
    and call: "throttle_call m nt tc td get put f s = (r, s')"
  shows "\<not> lock_held (get s')"
proof -
  from lens have gp: "\<And>a s. get (put a s) = a" by (simp add: field_lens_def)
  from call free show ?thesis
    by (auto simp: throttle_call_def gp Let_def split: if_splits prod.splits sum.splits)
qed

text \<open>
  The throttle record after a call whose method kept it: an execution stores the second
  clock reading, a raised exception leaves the record as it was.
\<close>

lemma throttle_call_ran_record:
  assumes lens: "field_lens get put" and keep: "keeps_field get f"
    and call: "throttle_call m nt tc td get put f s = (Inr (Ran r), s1)"
  shows "get s1 = \<lparr>lock_held = False, last_call = Some td\<rparr>"
  using call lens keep
  by (auto simp: throttle_call_def field_lens_def keeps_field_def Let_def
      split: if_splits prod.splits sum.splits)

lemma throttle_call_raised_record:
  assumes lens: "field_lens get put" and keep: "keeps_field get f"
    and call: "throttle_call m nt tc td get put f s = (Inl e, s1)"
  shows "get s1 = get s"
  using call lens keep
  by (auto simp: throttle_call_def field_lens_def keeps_field_def Let_def
      split: if_splits prod.splits sum.splits)

end
