(* ===== verification/Tado_Client.thy ===== *)
theory Tado_Client
  imports Prelude
begin

text \<open>
  The interface of the \<open>PyTado.interface.Tado\<close> client as the component uses it. The
  library is not part of the repository: its behaviour is left open. The remote state of
  the Tado cloud is a type variable \<open>'w\<close>, the JSON payloads the client returns are
  \<open>'p\<close>, and each method the component calls is a field of \<open>tado_api\<close>: reads
  return a payload or raise, writes return the new remote state or raise. Every lemma of
  the data store holds for every client, i.e. for every instance of this record.
  A small concrete client closes the theory; the witnesses evaluate on it.
\<close>

record ('w, 'p) tado_api =
  api_getState :: "'w \<Rightarrow> tado_id \<Rightarrow> py_exception + 'p"
  api_getDevices :: "'w \<Rightarrow> py_exception + 'p list"
  api_getZones :: "'w \<Rightarrow> py_exception + 'p"
  api_getCapabilities :: "'w \<Rightarrow> tado_id \<Rightarrow> py_exception + 'p"
  api_getMe :: "'w \<Rightarrow> py_exception + 'p"
  api_resetZoneOverlay :: "'w \<Rightarrow> tado_id \<Rightarrow> py_exception + 'w"
  api_setZoneOverlay ::
    "'w \<Rightarrow> tado_id \<Rightarrow> string \<Rightarrow> real option \<Rightarrow> int option \<Rightarrow> string \<Rightarrow> string \<Rightarrow>
     string option \<Rightarrow> py_exception + 'w"

text \<open>
  The arguments of \<open>setZoneOverlay(zone, overlayMode, setTemp, duration, deviceType,
  power, mode)\<close>, as one record, so that a remote state can remember the last overlay
  written to a zone.
\<close>

record overlay_request =
  ov_mode :: string
  ov_temperature :: "real option"
  ov_duration :: "int option"
  ov_device_type :: string
  ov_power :: string
  ov_hvac_mode :: "string option"

section \<open>A concrete client\<close>

text \<open>
  A cloud whose remote state is the overlay of each zone, a device list and whether the
  service answers; \<open>getState\<close> reports the zone's overlay. The payload type is that of
  overlays. It is a fixture for the witnesses, not a model of the library.
\<close>

record demo_cloud =
  cloud_online :: bool
  cloud_overlays :: "tado_id \<Rightarrow> overlay_request option"
  cloud_devices :: "overlay_request option list"

definition demo_api :: "(demo_cloud, overlay_request option) tado_api" where
  "demo_api =
     \<lparr>api_getState = (\<lambda>w z. if cloud_online w then Inr (cloud_overlays w z) else Inl RuntimeError),
      api_getDevices = (\<lambda>w. if cloud_online w then Inr (cloud_devices w) else Inl RuntimeError),
      api_getZones = (\<lambda>w. if cloud_online w then Inr None else Inl RuntimeError),
      api_getCapabilities = (\<lambda>w z. if cloud_online w then Inr None else Inl RuntimeError),
      api_getMe = (\<lambda>w. if cloud_online w then Inr None else Inl RuntimeError),
      api_resetZoneOverlay = (\<lambda>w z.
         if cloud_online w then Inr (w\<lparr>cloud_overlays := (cloud_overlays w)(z := None)\<rparr>)
         else Inl HTTPError),
      api_setZoneOverlay = (\<lambda>w z om t d dt p m.
         if cloud_online w then
           Inr (w\<lparr>cloud_overlays := (cloud_overlays w)(z \<mapsto>
             \<lparr>ov_mode = om, ov_temperature = t, ov_duration = d, ov_device_type = dt,
              ov_power = p, ov_hvac_mode = m\<rparr>)\<rparr>)
         else Inl HTTPError)\<rparr>"

definition demo_world :: demo_cloud where
  "demo_world = \<lparr>cloud_online = True, cloud_overlays = (\<lambda>_. None), cloud_devices = [None]\<rparr>"

lemmas demo_simps = demo_api_def demo_world_def

end
