(* ===== verification/Data_Store.thy ===== *)
theory Data_Store
  imports Throttle Tado_Client
begin

text \<open>
  \<open>TadoDataStore\<close> of \<open>src/homeassistant/components/tado/__init__.py\<close> (lines 56-145):
  the client handle, the registry of tracked sensors (an insertion-ordered dictionary),
  the cache of their last values, and the throttle state that \<open>@Throttle\<close> keeps on the
  instance. An operation runs on \<open>runtime\<close>, the store extended with the remote state
  of the cloud and the log; it returns the result or the exception it raises, together
  with the state it leaves (a raised exception keeps the mutations made before it).
\<close>

definition MIN_TIME_BETWEEN_UPDATES :: int where
  "MIN_TIME_BETWEEN_UPDATES = 10 * 1000000"

text \<open>
  A sensor descriptor, the dictionary passed to \<open>add_sensor\<close>: its \<open>"id"\<close> and
  \<open>"name"\<close> entries and whether the keys \<open>"zone"\<close> and \<open>"device"\<close> are present
  (the code only tests their presence).
\<close>

record sensor =
  sensor_id :: tado_id
  sensor_name :: string
  has_zone :: bool
  has_device :: bool

record ('w, 'p) TadoDataStore =
  tado :: "('w, 'p) tado_api"
  sensors :: "(data_id \<times> sensor) list"
  data :: "data_id \<rightharpoonup> 'p option"
  throttle :: throttle_state

record ('w, 'p) runtime = "('w, 'p) TadoDataStore" +
  world :: 'w
  log_records :: "log_entry list"

definition TadoDataStore_init :: "('w, 'p) tado_api \<Rightarrow> ('w, 'p) TadoDataStore" where
  "TadoDataStore_init api =
     \<lparr>tado = api, sensors = [], data = Map.empty, throttle = throttle_init\<rparr>"

section \<open>The refresh pass\<close>

text \<open>
  The body of the \<open>try\<close> block for one sensor. Its result is the exception that left
  the block (if any), the value of the local \<open>data\<close> at that moment, and the log
  records written. The zone query (lines 73-79):
\<close>

definition zone_query ::
  "('w, 'p) tado_api \<Rightarrow> 'w \<Rightarrow> sensor \<Rightarrow> py_exception option \<times> 'p option \<times> log_entry list" where
  "zone_query api w sn =
     (if has_zone sn then
        (let lg = [Log_query_zone (sensor_id sn) (sensor_name sn)] in
         case api_getState api w (sensor_id sn) of
           Inl e \<Rightarrow> (Some e, None, lg)
         | Inr d \<Rightarrow> (None, Some d, lg))
      else (None, None, []))"

text \<open>
  The device query (lines 81-87): \<open>self.tado.getDevices()[0]\<close> raises whatever
  \<open>getDevices\<close> raises, and \<open>IndexError\<close> on an empty list. On an exception the
  local \<open>data\<close> keeps the value it had.
\<close>

definition device_query ::
  "('w, 'p) tado_api \<Rightarrow> 'w \<Rightarrow> sensor \<Rightarrow> 'p option \<Rightarrow>
   py_exception option \<times> 'p option \<times> log_entry list" where
  "device_query api w sn d =
     (if has_device sn then
        (let lg = [Log_query_device (sensor_id sn) (sensor_name sn)] in
         case api_getDevices api w of
           Inl e \<Rightarrow> (Some e, d, lg)
         | Inr [] \<Rightarrow> (Some IndexError, d, lg)
         | Inr (x # _) \<Rightarrow> (None, Some x, lg))
      else (None, d, []))"

definition query_sensor ::
  "('w, 'p) tado_api \<Rightarrow> 'w \<Rightarrow> sensor \<Rightarrow> py_exception option \<times> 'p option \<times> log_entry list" where
  "query_sensor api w sn =
     (case zone_query api w sn of
        (Some e, d, lg) \<Rightarrow> (Some e, d, lg)
      | (None, d, lg) \<Rightarrow>
          (case device_query api w sn d of (ex, d', lg') \<Rightarrow> (ex, d', lg @ lg')))"

text \<open>
  One iteration of the loop of \<open>update\<close> (lines 69-94): a \<open>RuntimeError\<close> is caught
  and logged, and the entry is set to the local \<open>data\<close>; any other exception leaves the
  loop before the assignment.
\<close>

definition update_entry ::
  "('w, 'p) tado_api \<Rightarrow> data_id \<times> sensor \<Rightarrow> ('w, 'p) runtime \<Rightarrow>
   (py_exception + unit) \<times> ('w, 'p) runtime" where
  "update_entry api x s =
     (case x of (k, sn) \<Rightarrow>
       (case query_sensor api (world s) sn of
          (None, d, lg) \<Rightarrow>
            (Inr (), s\<lparr>data := (data s)(k \<mapsto> d), log_records := log_records s @ lg\<rparr>)
        | (Some e, d, lg) \<Rightarrow>
            (if e = RuntimeError then
               (Inr (), s\<lparr>data := (data s)(k \<mapsto> d),
                         log_records := log_records s @ lg @
                           [Log_unable_to_connect (sensor_id sn) (sensor_id sn)]\<rparr>)
             else (Inl e, s\<lparr>log_records := log_records s @ lg\<rparr>))))"

text \<open>The loop over the snapshot \<open>list(self.sensors.items())\<close>.\<close>

fun update_entries ::
  "('w, 'p) tado_api \<Rightarrow> (data_id \<times> sensor) list \<Rightarrow> ('w, 'p) runtime \<Rightarrow>
   (py_exception + unit) \<times> ('w, 'p) runtime" where
  "update_entries api [] s = (Inr (), s)"
| "update_entries api (x # xs) s =
     (case update_entry api x s of
        (Inl e, s') \<Rightarrow> (Inl e, s')
      | (Inr _, s') \<Rightarrow> update_entries api xs s')"

definition update_body :: "('w, 'p) runtime \<Rightarrow> (py_exception + unit) \<times> ('w, 'p) runtime" where
  "update_body s = update_entries (tado s) (sensors s) s"

text \<open>
  \<open>update\<close> as decorated by \<open>@Throttle(MIN_TIME_BETWEEN_UPDATES)\<close>: the flag is the
  \<open>no_throttle\<close> keyword, the two times are the readings of \<open>utcnow()\<close> before and
  after the method.
\<close>

definition update ::
  "bool \<Rightarrow> time \<Rightarrow> time \<Rightarrow> ('w, 'p) runtime \<Rightarrow>
   (py_exception + unit throttled) \<times> ('w, 'p) runtime" where
  "update no_throttle t_check t_done s =
     throttle_call MIN_TIME_BETWEEN_UPDATES no_throttle t_check t_done
       throttle (\<lambda>th s. s\<lparr>throttle := th\<rparr>) update_body s"

section \<open>Registry and cache\<close>

definition add_sensor ::
  "data_id \<Rightarrow> sensor \<Rightarrow> ('w, 'p, 'z) TadoDataStore_scheme \<Rightarrow> ('w, 'p, 'z) TadoDataStore_scheme" where
  "add_sensor data_id sn s =
     s\<lparr>sensors := dict_set (sensors s) data_id sn, data := (data s)(data_id \<mapsto> None)\<rparr>"

text \<open>\<open>get_data\<close> returns the cached value, or the placeholder \<open>{"error": "no data"}\<close>.\<close>

datatype 'p data_result = No_data | Cached "'p option"

definition get_data :: "('w, 'p, 'z) TadoDataStore_scheme \<Rightarrow> data_id \<Rightarrow> 'p data_result" where
  "get_data s data_id = (case data s data_id of None \<Rightarrow> No_data | Some d \<Rightarrow> Cached d)"

section \<open>Pass-through operations\<close>

definition get_zones :: "('w, 'p) runtime \<Rightarrow> py_exception + 'p" where
  "get_zones s = api_getZones (tado s) (world s)"

definition get_capabilities :: "('w, 'p) runtime \<Rightarrow> tado_id \<Rightarrow> py_exception + 'p" where
  "get_capabilities s tado_id = api_getCapabilities (tado s) (world s) tado_id"

definition get_me :: "('w, 'p) runtime \<Rightarrow> py_exception + 'p" where
  "get_me s = api_getMe (tado s) (world s)"

text \<open>
  The write operations call the client, then \<open>self.update(no_throttle=True)\<close>; the
  forced call reads the clock once, after the pass. An exception of the client's write
  propagates before the refresh.
\<close>

definition forced_refresh :: "time \<Rightarrow> ('w, 'p) runtime \<Rightarrow> (py_exception + unit) \<times> ('w, 'p) runtime" where
  "forced_refresh t s = (case update True t t s of (r, s') \<Rightarrow> (map_sum id (\<lambda>_. ()) r, s'))"

definition reset_zone_overlay ::
  "tado_id \<Rightarrow> time \<Rightarrow> ('w, 'p) runtime \<Rightarrow> (py_exception + unit) \<times> ('w, 'p) runtime" where
  "reset_zone_overlay zone_id t s =
     (case api_resetZoneOverlay (tado s) (world s) zone_id of
        Inl e \<Rightarrow> (Inl e, s)
      | Inr w' \<Rightarrow> forced_refresh t (s\<lparr>world := w'\<rparr>))"

definition set_zone_overlay ::
  "tado_id \<Rightarrow> string \<Rightarrow> real option \<Rightarrow> int option \<Rightarrow> string \<Rightarrow> string option \<Rightarrow> time \<Rightarrow>
   ('w, 'p) runtime \<Rightarrow> (py_exception + unit) \<times> ('w, 'p) runtime" where
  "set_zone_overlay zone_id overlay_mode temperature duration device_type mode t s =
     (case api_setZoneOverlay (tado s) (world s) zone_id overlay_mode temperature duration
             device_type ''ON'' mode of
        Inl e \<Rightarrow> (Inl e, s)
      | Inr w' \<Rightarrow> forced_refresh t (s\<lparr>world := w'\<rparr>))"

definition set_zone_off ::
  "tado_id \<Rightarrow> string \<Rightarrow> string \<Rightarrow> time \<Rightarrow> ('w, 'p) runtime \<Rightarrow>
   (py_exception + unit) \<times> ('w, 'p) runtime" where
  "set_zone_off zone_id overlay_mode device_type t s =
     (case api_setZoneOverlay (tado s) (world s) zone_id overlay_mode None None
             device_type ''OFF'' None of
        Inl e \<Rightarrow> (Inl e, s)
      | Inr w' \<Rightarrow> forced_refresh t (s\<lparr>world := w'\<rparr>))"

section \<open>Specification of the store\<close>

text \<open>
  The well-formedness of a store: the registry has distinct keys (it is a dictionary),
  every registered sensor has a cache entry and nothing else has one, and no throttled
  call is in progress.
\<close>

definition store_inv :: "('w, 'p, 'z) TadoDataStore_scheme \<Rightarrow> bool" where
  "store_inv s \<longleftrightarrow>
     distinct (map fst (sensors s)) \<and> dom (data s) = fst ` set (sensors s) \<and>
     \<not> lock_held (throttle s)"

text \<open>
  What a refresh promises for one sensor (section 4.1 of the specification): a zone
  sensor reads the zone's state, a device sensor the first device, and a failed read
  leaves the entry empty. The refreshed cache maps each registered sensor to its read
  and leaves other keys alone.
\<close>

definition spec_read :: "('w, 'p) tado_api \<Rightarrow> 'w \<Rightarrow> sensor \<Rightarrow> 'p option" where
  "spec_read api w sn =
     (if has_zone sn then
        (case api_getState api w (sensor_id sn) of Inr d \<Rightarrow> Some d | Inl _ \<Rightarrow> None)
      else if has_device sn then
        (case api_getDevices api w of Inr (d # _) \<Rightarrow> Some d | _ \<Rightarrow> None)
      else None)"

definition refresh_spec ::
  "('w, 'p) tado_api \<Rightarrow> 'w \<Rightarrow> (data_id \<times> sensor) list \<Rightarrow> (data_id \<rightharpoonup> 'p option) \<Rightarrow>
   (data_id \<rightharpoonup> 'p option)" where
  "refresh_spec api w xs m =
     (\<lambda>k. case map_of xs k of Some sn \<Rightarrow> Some (spec_read api w sn) | None \<Rightarrow> m k)"

text \<open>
  The reads of a sensor fail, if at all, with the \<open>RuntimeError\<close> the loop catches:
  no other exception of the client and no empty device list.
\<close>

definition reads_recoverable :: "('w, 'p) tado_api \<Rightarrow> 'w \<Rightarrow> sensor \<Rightarrow> bool" where
  "reads_recoverable api w sn \<longleftrightarrow>
     (has_zone sn \<longrightarrow>
        (case api_getState api w (sensor_id sn) of Inl e \<Rightarrow> e = RuntimeError | Inr _ \<Rightarrow> True)) \<and>
     (has_device sn \<longrightarrow>
        (case api_getDevices api w of Inl e \<Rightarrow> e = RuntimeError | Inr ds \<Rightarrow> ds \<noteq> []))"

text \<open>A sensor tracks one kind of object, as the sensor and climate platforms create them.\<close>

definition single_kind :: "sensor \<Rightarrow> bool" where
  "single_kind sn \<longleftrightarrow> \<not> (has_zone sn \<and> has_device sn)"

abbreviation read_value :: "('w, 'p) tado_api \<Rightarrow> 'w \<Rightarrow> sensor \<Rightarrow> 'p option" where
  "read_value api w sn \<equiv> fst (snd (query_sensor api w sn))"

text \<open>The log records that announce a remote query, and those one sensor's pass announces.\<close>

fun is_query :: "log_entry \<Rightarrow> bool" where
  "is_query (Log_query_zone _ _) = True"
| "is_query (Log_query_device _ _) = True"
| "is_query _ = False"

definition sensor_queries :: "sensor \<Rightarrow> log_entry list" where
  "sensor_queries sn =
     (if has_zone sn then [Log_query_zone (sensor_id sn) (sensor_name sn)] else []) @
     (if has_device sn then [Log_query_device (sensor_id sn) (sensor_name sn)] else [])"

section \<open>A concrete store\<close>

text \<open>
  A store on the concrete client of \<open>Tado_Client\<close>, with one zone sensor and one
  device sensor registered, as the sensor platform registers them; the witnesses run the
  operations on it.
\<close>

definition demo_zone :: sensor where
  "demo_zone = \<lparr>sensor_id = 1, sensor_name = ''Living'', has_zone = True, has_device = False\<rparr>"

definition demo_device :: sensor where
  "demo_device = \<lparr>sensor_id = 7, sensor_name = ''Bridge'', has_zone = False, has_device = True\<rparr>"

definition demo_runtime :: "(demo_cloud, overlay_request option) runtime" where
  "demo_runtime =
     \<lparr>tado = demo_api,
      sensors = [(''zone Living 1'', demo_zone), (''device Bridge 7'', demo_device)],
      data = [''zone Living 1'' \<mapsto> None, ''device Bridge 7'' \<mapsto> None],
      throttle = throttle_init, world = demo_world, log_records = []\<rparr>"

lemmas demo_store_simps = demo_zone_def demo_device_def demo_runtime_def demo_simps throttle_init_def

text \<open>The definitions a concrete run unfolds.\<close>

lemmas store_eval_simps = update_def throttle_call_def throttle_due_def update_body_def
  update_entry_def query_sensor_def zone_query_def device_query_def forced_refresh_def
  set_zone_overlay_def set_zone_off_def reset_zone_overlay_def add_sensor_def get_data_def
  MIN_TIME_BETWEEN_UPDATES_def

section \<open>The refresh pass: frame and values\<close>

lemma update_entry_frame:
  "update_entry api x s = (r, s') \<Longrightarrow> s' = s\<lparr>data := data s', log_records := log_records s'\<rparr>"
  by (auto simp: update_entry_def split: prod.splits option.splits if_splits)

lemma update_entries_frame:
  "update_entries api xs s = (r, s') \<Longrightarrow> s' = s\<lparr>data := data s', log_records := log_records s'\<rparr>"
proof (induction xs arbitrary: s)
  case Nil
  then show ?case by simp
next
  case (Cons x xs)
  obtain r1 s1 where u: "update_entry api x s = (r1, s1)" by fastforce
  then have f1: "s1 = s\<lparr>data := data s1, log_records := log_records s1\<rparr>"
    by (rule update_entry_frame)
  show ?case
  proof (cases r1)
    case (Inl e)
    with Cons.prems u f1 show ?thesis by simp
  next
    case (Inr u1)
    with Cons.prems u have "update_entries api xs s1 = (r, s')" by simp
    then have "s' = s1\<lparr>data := data s', log_records := log_records s'\<rparr>" by (rule Cons.IH)
    with f1 show ?thesis by (cases s1) simp
  qed
qed

lemma update_body_frame:
  "update_body s = (r, s') \<Longrightarrow> s' = s\<lparr>data := data s', log_records := log_records s'\<rparr>"
  unfolding update_body_def by (rule update_entries_frame)

lemma update_entry_throttle:
  "update_entry api x (s\<lparr>throttle := th\<rparr>) = map_prod id (\<lambda>s. s\<lparr>throttle := th\<rparr>) (update_entry api x s)"
  by (auto simp: update_entry_def split: prod.splits option.splits)

lemma update_entries_throttle:
  "update_entries api xs (s\<lparr>throttle := th\<rparr>) =
     map_prod id (\<lambda>s. s\<lparr>throttle := th\<rparr>) (update_entries api xs s)"
  by (induction xs arbitrary: s)
     (auto simp: update_entry_throttle split: prod.splits sum.splits)

lemma update_body_throttle:
  "update_body (s\<lparr>throttle := th\<rparr>) = map_prod id (\<lambda>s. s\<lparr>throttle := th\<rparr>) (update_body s)"
  by (simp add: update_body_def update_entries_throttle)

lemma throttle_field_lens: "field_lens throttle (\<lambda>th s. s\<lparr>throttle := th\<rparr>)"
  by (simp add: field_lens_def)

lemma update_body_keeps_throttle: "keeps_field throttle update_body"
  unfolding keeps_field_def
proof (intro allI impI)
  fix s r s'
  assume "update_body s = (r, s')"
  then have "throttle s' = throttle (s\<lparr>data := data s', log_records := log_records s'\<rparr>)"
    by (rule update_body_frame [THEN arg_cong])
  then show "throttle s' = throttle s" by simp
qed

lemma query_sensor_recoverable:
  "reads_recoverable api w sn \<Longrightarrow> fst (query_sensor api w sn) \<in> {None, Some RuntimeError}"
  by (auto simp: reads_recoverable_def query_sensor_def zone_query_def device_query_def Let_def
      split: sum.splits list.splits)

lemma read_value_spec:
  "single_kind sn \<Longrightarrow> read_value api w sn = spec_read api w sn"
  by (auto simp: single_kind_def spec_read_def query_sensor_def zone_query_def device_query_def
      Let_def split: sum.splits list.splits)

lemma update_entry_recoverable:
  assumes "reads_recoverable api (world s) sn"
  shows "\<exists>lg. update_entry api (k, sn) s =
           (Inr (), s\<lparr>data := (data s)(k \<mapsto> read_value api (world s) sn),
                     log_records := log_records s @ lg\<rparr>)"
  using query_sensor_recoverable [OF assms]
  by (auto simp: update_entry_def split: prod.splits)

text \<open>The values a loop over recoverable sensors writes: the last write of a key wins.\<close>

lemma update_entries_recoverable:
  assumes "\<forall>(k, sn) \<in> set xs. reads_recoverable api (world s) sn"
  shows "\<exists>lg. update_entries api xs s =
           (Inr (), s\<lparr>data := data s ++ map_of (rev (map (\<lambda>(k, sn). (k, read_value api (world s) sn)) xs)),
                     log_records := log_records s @ lg\<rparr>)"
  using assms
proof (induction xs arbitrary: s)
  case Nil
  show ?case by (rule exI [of _ "[]"]) simp
next
  case (Cons x xs)
  obtain k sn where x: "x = (k, sn)" by fastforce
  with Cons.prems obtain lg1 where u1:
    "update_entry api (k, sn) s = (Inr (), s\<lparr>data := (data s)(k \<mapsto> read_value api (world s) sn),
                     log_records := log_records s @ lg1\<rparr>)"
    using update_entry_recoverable by fastforce
  let ?s1 = "s\<lparr>data := (data s)(k \<mapsto> read_value api (world s) sn), log_records := log_records s @ lg1\<rparr>"
  from Cons.prems have "\<forall>(k, sn) \<in> set xs. reads_recoverable api (world ?s1) sn" by simp
  then obtain lg2 where u2: "update_entries api xs ?s1 =
      (Inr (), ?s1\<lparr>data := data ?s1 ++ map_of (rev (map (\<lambda>(k, sn). (k, read_value api (world ?s1) sn)) xs)),
                log_records := log_records ?s1 @ lg2\<rparr>)"
    using Cons.IH by blast
  show ?case
    by (rule exI [of _ "lg1 @ lg2"]) (simp add: u1 u2 x map_add_upd_left)
qed

lemma refresh_spec_eq:
  assumes dist: "distinct (map fst xs)"
    and kinds: "\<forall>(k, sn) \<in> set xs. single_kind sn"
  shows "m ++ map_of (rev (map (\<lambda>(k, sn). (k, read_value api w sn)) xs)) = refresh_spec api w xs m"
proof
  fix k
  have d: "distinct (map fst (map (\<lambda>(k, sn). (k, read_value api w sn)) xs))"
    using dist by (simp add: case_prod_beta comp_def)
  show "(m ++ map_of (rev (map (\<lambda>(k, sn). (k, read_value api w sn)) xs))) k = refresh_spec api w xs m k"
  proof (cases "map_of xs k")
    case None
    then show ?thesis
      by (simp add: refresh_spec_def map_of_rev_distinct [OF d] map_of_map map_add_def)
  next
    case (Some sn)
    then have "(k, sn) \<in> set xs" by (rule map_of_SomeD)
    with kinds have "single_kind sn" by blast
    with Some show ?thesis
      by (simp add: refresh_spec_def map_of_rev_distinct [OF d] map_of_map map_add_def read_value_spec)
  qed
qed

lemma update_body_refresh:
  assumes inv: "store_inv s"
    and reads: "\<forall>(k, sn) \<in> set (sensors s). single_kind sn \<and> reads_recoverable (tado s) (world s) sn"
  shows "\<exists>lg. update_body s =
           (Inr (), s\<lparr>data := refresh_spec (tado s) (world s) (sensors s) (data s),
                     log_records := log_records s @ lg\<rparr>)"
proof -
  from reads have "\<forall>(k, sn) \<in> set (sensors s). reads_recoverable (tado s) (world s) sn" by blast
  then obtain lg where u: "update_entries (tado s) (sensors s) s =
           (Inr (), s\<lparr>data := data s ++ map_of (rev (map (\<lambda>(k, sn). (k, read_value (tado s) (world s) sn)) (sensors s))),
                     log_records := log_records s @ lg\<rparr>)"
    using update_entries_recoverable by blast
  from inv have "distinct (map fst (sensors s))" by (simp add: store_inv_def)
  moreover from reads have "\<forall>(k, sn) \<in> set (sensors s). single_kind sn" by blast
  ultimately have "data s ++ map_of (rev (map (\<lambda>(k, sn). (k, read_value (tado s) (world s) sn)) (sensors s)))
      = refresh_spec (tado s) (world s) (sensors s) (data s)"
    by (rule refresh_spec_eq)
  with u show ?thesis by (auto simp: update_body_def)
qed

section \<open>The throttled update on each branch\<close>

lemma update_ran:
  assumes free: "\<not> lock_held (throttle s)"
    and due: "throttle_due MIN_TIME_BETWEEN_UPDATES nt tc (throttle s)"
    and body: "update_body s = (Inr u, s')"
  shows "update nt tc td s = (Inr (Ran u), s'\<lparr>throttle := \<lparr>lock_held = False, last_call = Some td\<rparr>\<rparr>)"
proof -
  have "update_body (s\<lparr>throttle := (throttle s)\<lparr>lock_held := True\<rparr>\<rparr>) =
        (Inr u, s'\<lparr>throttle := (throttle s)\<lparr>lock_held := True\<rparr>\<rparr>)"
    by (simp add: update_body_throttle body)
  with free due show ?thesis
    by (simp add: update_def throttle_call_ran)
qed

lemma update_raised:
  assumes free: "\<not> lock_held (throttle s)"
    and due: "throttle_due MIN_TIME_BETWEEN_UPDATES nt tc (throttle s)"
    and body: "update_body s = (Inl e, s')"
  shows "update nt tc td s = (Inl e, s')"
proof -
  have keep: "throttle s' = throttle s"
    using update_body_keeps_throttle body unfolding keeps_field_def by blast
  have "update_body (s\<lparr>throttle := (throttle s)\<lparr>lock_held := True\<rparr>\<rparr>) =
        (Inl e, s'\<lparr>throttle := (throttle s)\<lparr>lock_held := True\<rparr>\<rparr>)"
    by (simp add: update_body_throttle body)
  with free due keep show ?thesis
    by (simp add: update_def throttle_call_raised)
qed

lemma update_skipped:
  "lock_held (throttle s) \<or> \<not> throttle_due MIN_TIME_BETWEEN_UPDATES nt tc (throttle s) \<Longrightarrow>
   update nt tc td s = (Inr Throttled, s)"
  by (cases "lock_held (throttle s)") (auto simp: update_def throttle_call_held throttle_call_not_due)

lemma update_ran_record:
  "update nt tc td s = (Inr (Ran u), s1) \<Longrightarrow> throttle s1 = \<lparr>lock_held = False, last_call = Some td\<rparr>"
  unfolding update_def
  by (rule throttle_call_ran_record [OF throttle_field_lens update_body_keeps_throttle]) simp

lemma update_raised_record:
  "update nt tc td s = (Inl e, s1) \<Longrightarrow> throttle s1 = throttle s"
  unfolding update_def
  by (rule throttle_call_raised_record [OF throttle_field_lens update_body_keeps_throttle]) simp

text \<open>A loop stopped by an exception the loop does not catch: the entries before it are written.\<close>

lemma update_entries_escape:
  assumes before: "\<forall>(k, sn) \<in> set xs. reads_recoverable api (world s) sn"
    and raised: "fst (query_sensor api (world s) sn) = Some e" and other: "e \<noteq> RuntimeError"
  shows "\<exists>lg. update_entries api (xs @ (k, sn) # ys) s =
           (Inl e, s\<lparr>data := data s ++ map_of (rev (map (\<lambda>(k, sn). (k, read_value api (world s) sn)) xs)),
                     log_records := log_records s @ lg\<rparr>)"
  using before raised
proof (induction xs arbitrary: s)
  case Nil
  obtain ex d lg where q: "query_sensor api (world s) sn = (ex, d, lg)"
    by (rule prod_cases3)
  with Nil.prems have "ex = Some e" by simp
  with q other show ?case
    by (intro exI [of _ lg]) (simp add: update_entry_def)
next
  case (Cons x xs)
  obtain k' sn' where x: "x = (k', sn')" by fastforce
  with Cons.prems obtain lg1 where u1:
    "update_entry api (k', sn') s = (Inr (), s\<lparr>data := (data s)(k' \<mapsto> read_value api (world s) sn'),
                     log_records := log_records s @ lg1\<rparr>)"
    using update_entry_recoverable by fastforce
  let ?s1 = "s\<lparr>data := (data s)(k' \<mapsto> read_value api (world s) sn'), log_records := log_records s @ lg1\<rparr>"
  from Cons.prems have "\<forall>(k, sn) \<in> set xs. reads_recoverable api (world ?s1) sn"
    and "fst (query_sensor api (world ?s1) sn) = Some e" by simp_all
  then obtain lg2 where u2: "update_entries api (xs @ (k, sn) # ys) ?s1 =
      (Inl e, ?s1\<lparr>data := data ?s1 ++ map_of (rev (map (\<lambda>(k, sn). (k, read_value api (world ?s1) sn)) xs)),
                log_records := log_records ?s1 @ lg2\<rparr>)"
    by (rule Cons.IH [elim_format]) blast
  show ?case
    by (rule exI [of _ "lg1 @ lg2"]) (simp add: u1 u2 x map_add_upd_left)
qed

lemma map_add_rev_outside:
  assumes "k \<notin> fst ` set xs"
  shows "(m ++ map_of (rev (map (\<lambda>(k, sn). (k, f sn)) xs))) k = m k"
proof -
  have "fst ` set (rev (map (\<lambda>(k, sn). (k, f sn)) xs)) = fst ` set xs"
    by (force simp: image_iff)
  with assms have "map_of (rev (map (\<lambda>(k, sn). (k, f sn)) xs)) k = None"
    by (simp add: map_of_eq_None_iff)
  then show ?thesis by (simp add: map_add_def)
qed

lemma update_entries_dom:
  "fst ` set xs \<subseteq> dom (data s) \<Longrightarrow> update_entries api xs s = (r, s') \<Longrightarrow>
   dom (data s') = dom (data s)"
proof (induction xs arbitrary: s)
  case Nil
  then show ?case by simp
next
  case (Cons x xs)
  obtain k sn where x: "x = (k, sn)" by fastforce
  obtain r1 s1 where u: "update_entry api x s = (r1, s1)" by fastforce
  have d1: "dom (data s1) = dom (data s)"
    using u Cons.prems(1) x
    by (auto simp: update_entry_def split: prod.splits option.splits if_splits)
  show ?case
  proof (cases r1)
    case (Inl e)
    with Cons.prems u d1 show ?thesis by simp
  next
    case (Inr u1)
    with Cons.prems u have "update_entries api xs s1 = (r, s')" by simp
    moreover from Cons.prems(1) d1 have "fst ` set xs \<subseteq> dom (data s1)" by simp
    ultimately have "dom (data s') = dom (data s1)" using Cons.IH by blast
    with d1 show ?thesis by simp
  qed
qed

lemma update_body_inv:
  assumes inv: "store_inv s" and body: "update_body s = (r, s')"
  shows "store_inv s'"
proof -
  have eq: "s' = s\<lparr>data := data s', log_records := log_records s'\<rparr>"
    using body by (rule update_body_frame)
  from inv have "fst ` set (sensors s) \<subseteq> dom (data s)" by (simp add: store_inv_def)
  with body have "dom (data s') = dom (data s)"
    unfolding update_body_def by (rule update_entries_dom [rotated])
  moreover have "sensors s' = sensors s" and "throttle s' = throttle s"
    by (subst eq, simp)+
  ultimately show ?thesis using inv by (simp add: store_inv_def)
qed

text \<open>Every call of \<open>update\<close> keeps the store well formed, on each of its three branches.\<close>

lemma update_inv:
  assumes inv: "store_inv s" and call: "update nt tc td s = (r, s')"
  shows "store_inv s'"
proof -
  obtain r0 s0 where body: "update_body s = (r0, s0)" by fastforce
  from inv body have inv0: "store_inv s0" by (rule update_body_inv)
  from inv have free: "\<not> lock_held (throttle s)" by (simp add: store_inv_def)
  show ?thesis
  proof (cases "throttle_due MIN_TIME_BETWEEN_UPDATES nt tc (throttle s)")
    case False
    with call show ?thesis using inv by (simp add: update_skipped)
  next
    case due: True
    show ?thesis
    proof (cases r0)
      case (Inl e)
      with update_raised [OF free due] body call inv0 show ?thesis by simp
    next
      case (Inr u)
      with update_ran [OF free due] body call
      have "s' = s0\<lparr>throttle := \<lparr>lock_held = False, last_call = Some td\<rparr>\<rparr>" by simp
      with inv0 show ?thesis by (simp add: store_inv_def)
    qed
  qed
qed

lemma forced_refresh_inv:
  "store_inv s \<Longrightarrow> forced_refresh t s = (r, s') \<Longrightarrow> store_inv s'"
  by (auto simp: forced_refresh_def intro: update_inv split: prod.splits)

lemma forced_refresh_refresh:
  assumes inv: "store_inv s"
    and reads: "\<forall>(k, sn) \<in> set (sensors s). single_kind sn \<and> reads_recoverable (tado s) (world s) sn"
  shows "\<exists>lg. forced_refresh t s =
           (Inr (), s\<lparr>data := refresh_spec (tado s) (world s) (sensors s) (data s),
                     throttle := \<lparr>lock_held = False, last_call = Some t\<rparr>,
                     log_records := log_records s @ lg\<rparr>)"
proof -
  from inv reads obtain lg where body: "update_body s =
      (Inr (), s\<lparr>data := refresh_spec (tado s) (world s) (sensors s) (data s),
                log_records := log_records s @ lg\<rparr>)"
    using update_body_refresh by blast
  from inv have "\<not> lock_held (throttle s)" by (simp add: store_inv_def)
  then have "update True t t s = (Inr (Ran ()), s\<lparr>data := refresh_spec (tado s) (world s) (sensors s) (data s),
                log_records := log_records s @ lg,
                throttle := \<lparr>lock_held = False, last_call = Some t\<rparr>\<rparr>)"
    using throttle_due_forced body by (rule update_ran)
  then show ?thesis by (intro exI [of _ lg]) (simp add: forced_refresh_def)
qed

lemma store_inv_world [simp]: "store_inv (s\<lparr>world := w\<rparr>) = store_inv s"
  by (simp add: store_inv_def)

lemma add_sensor_inv: "store_inv s \<Longrightarrow> store_inv (add_sensor k sn s)"
  by (auto simp: store_inv_def add_sensor_def dict_simps)

lemma set_zone_overlay_inv:
  "store_inv s \<Longrightarrow> set_zone_overlay z om tp du dt m t s = (r, s') \<Longrightarrow> store_inv s'"
  by (auto simp: set_zone_overlay_def dest: forced_refresh_inv [rotated] split: sum.splits)

lemma set_zone_off_inv:
  "store_inv s \<Longrightarrow> set_zone_off z om dt t s = (r, s') \<Longrightarrow> store_inv s'"
  by (auto simp: set_zone_off_def dest: forced_refresh_inv [rotated] split: sum.splits)

lemma reset_zone_overlay_inv:
  "store_inv s \<Longrightarrow> reset_zone_overlay z t s = (r, s') \<Longrightarrow> store_inv s'"
  by (auto simp: reset_zone_overlay_def dest: forced_refresh_inv [rotated] split: sum.splits)

lemma update_entry_log:
  "update_entry api (k, sn) s = (Inr (), s') \<Longrightarrow>
   \<exists>lg. log_records s' = log_records s @ lg \<and>
        filter is_query lg = filter is_query (snd (snd (query_sensor api (world s) sn)))"
  by (auto simp: update_entry_def split: prod.splits option.splits if_splits)

lemma update_entries_log:
  "update_entries api xs s = (Inr (), s') \<Longrightarrow>
   \<exists>lg. log_records s' = log_records s @ lg \<and>
        filter is_query lg =
          concat (map (\<lambda>(k, sn). filter is_query (snd (snd (query_sensor api (world s) sn)))) xs)"
proof (induction xs arbitrary: s)
  case Nil
  then show ?case by simp
next
  case (Cons x xs)
  obtain k sn where x: "x = (k, sn)" by fastforce
  obtain r1 s1 where u: "update_entry api (k, sn) s = (r1, s1)" by fastforce
  with Cons.prems x obtain u1 where r1: "r1 = Inr u1" and rest: "update_entries api xs s1 = (Inr (), s')"
    by (cases r1) auto
  from u r1 obtain lg1 where l1: "log_records s1 = log_records s @ lg1"
    and q1: "filter is_query lg1 = filter is_query (snd (snd (query_sensor api (world s) sn)))"
    using update_entry_log by fastforce
  from rest obtain lg2 where l2: "log_records s' = log_records s1 @ lg2"
    and q2: "filter is_query lg2 =
      concat (map (\<lambda>(k, sn). filter is_query (snd (snd (query_sensor api (world s1) sn)))) xs)"
    using Cons.IH by blast
  have "world s1 = world s"
    using u update_entry_frame [OF u] by (metis runtime.select_convs(1) runtime.surjective
      runtime.update_convs(2) TadoDataStore.update_convs(3))
  with l1 l2 q1 q2 x show ?case by (intro exI [of _ "lg1 @ lg2"]) simp
qed

lemma query_sensor_queries:
  "single_kind sn \<Longrightarrow> filter is_query (snd (snd (query_sensor api w sn))) = sensor_queries sn"
  by (auto simp: single_kind_def sensor_queries_def query_sensor_def zone_query_def device_query_def
      Let_def split: sum.splits list.splits)

lemma forced_refresh_write:
  assumes inv: "store_inv s" and wr: "w_call = Inr w'"
    and reads: "\<forall>(k, sn) \<in> set (sensors s). single_kind sn \<and> reads_recoverable (tado s) w' sn"
  shows "\<exists>lg. (case w_call of Inl e \<Rightarrow> (Inl e, s) | Inr w' \<Rightarrow> forced_refresh t (s\<lparr>world := w'\<rparr>)) =
           (Inr (), s\<lparr>data := refresh_spec (tado s) w' (sensors s) (data s),
                     throttle := \<lparr>lock_held = False, last_call = Some t\<rparr>,
                     world := w', log_records := log_records s @ lg\<rparr>)"
proof -
  from inv have "store_inv (s\<lparr>world := w'\<rparr>)" by simp
  moreover from reads have "\<forall>(k, sn) \<in> set (sensors (s\<lparr>world := w'\<rparr>)).
      single_kind sn \<and> reads_recoverable (tado (s\<lparr>world := w'\<rparr>)) (world (s\<lparr>world := w'\<rparr>)) sn"
    by simp
  ultimately obtain lg where "forced_refresh t (s\<lparr>world := w'\<rparr>) =
      (Inr (), s\<lparr>world := w'\<rparr>\<lparr>data := refresh_spec (tado s) w' (sensors s) (data s),
                throttle := \<lparr>lock_held = False, last_call = Some t\<rparr>,
                log_records := log_records s @ lg\<rparr>)"
    using forced_refresh_refresh by fastforce
  with wr show ?thesis by (intro exI [of _ lg]) simp
qed

lemma update_throttled_same_store:
  "\<not> lock_held (throttle s) \<Longrightarrow> update True tc td s = (Inr Throttled, s') \<Longrightarrow> False"
  by (auto simp: update_def throttle_call_def Let_def split: prod.splits sum.splits)

section \<open>Properties of the store\<close>

text \<open>
  C1: two calls of \<open>update\<close> within the throttle window perform one refresh pass: once
  a call has executed the pass, an unforced call whose clock reading is at most
  \<open>MIN_TIME_BETWEEN_UPDATES\<close> after the end of that pass returns \<open>None\<close> and changes
  nothing: no query, no log record, no cache write.
\<close>

theorem update_second_call_throttled:
  assumes first: "update nt t1 t1' s = (Inr (Ran u), s1)"
    and window: "t2 - t1' \<le> MIN_TIME_BETWEEN_UPDATES"
  shows "update False t2 t2' s1 = (Inr Throttled, s1)"
proof -
  from first have "throttle s1 = \<lparr>lock_held = False, last_call = Some t1'\<rparr>"
    by (rule update_ran_record)
  with window have "\<not> throttle_due MIN_TIME_BETWEEN_UPDATES False t2 (throttle s1)"
    by (simp add: throttle_due_def)
  then show ?thesis by (intro update_skipped) simp
qed

theorem update_second_call_throttled_witness:
  "update False 0 5 demo_runtime = (Inr (Ran ()), snd (update False 0 5 demo_runtime)) \<and>
   (10000005 :: int) - 5 \<le> MIN_TIME_BETWEEN_UPDATES \<and>
   update False 10000005 10000006 (snd (update False 0 5 demo_runtime)) =
     (Inr Throttled, snd (update False 0 5 demo_runtime))"
proof -
  have h1: "update False 0 5 demo_runtime = (Inr (Ran ()), snd (update False 0 5 demo_runtime))"
    by (simp add: store_eval_simps demo_store_simps)
  have h2: "(10000005 :: int) - 5 \<le> MIN_TIME_BETWEEN_UPDATES"
    by (simp add: MIN_TIME_BETWEEN_UPDATES_def)
  show ?thesis using h1 h2 update_second_call_throttled [OF h1 h2] by simp
qed

text \<open>
  C2: an update that is due performs the refresh the specification describes: on a
  well-formed store whose sensors track one kind of object each and whose reads fail only
  with \<open>RuntimeError\<close>, the cache afterwards maps every registered sensor to its fresh
  read (empty where the read failed) and keeps every other entry, the throttle records
  the end of the pass and releases its lock, and only the log grows besides.
\<close>

theorem update_refines_refresh_spec:
  assumes inv: "store_inv s"
    and due: "throttle_due MIN_TIME_BETWEEN_UPDATES nt tc (throttle s)"
    and reads: "\<forall>(k, sn) \<in> set (sensors s). single_kind sn \<and> reads_recoverable (tado s) (world s) sn"
  shows "\<exists>lg. update nt tc td s =
           (Inr (Ran ()), s\<lparr>data := refresh_spec (tado s) (world s) (sensors s) (data s),
                            throttle := \<lparr>lock_held = False, last_call = Some td\<rparr>,
                            log_records := log_records s @ lg\<rparr>)"
proof -
  from inv reads obtain lg where body: "update_body s =
      (Inr (), s\<lparr>data := refresh_spec (tado s) (world s) (sensors s) (data s),
                log_records := log_records s @ lg\<rparr>)"
    using update_body_refresh by blast
  from inv have "\<not> lock_held (throttle s)" by (simp add: store_inv_def)
  then have "update nt tc td s = (Inr (Ran ()), s\<lparr>data := refresh_spec (tado s) (world s) (sensors s) (data s),
                log_records := log_records s @ lg,
                throttle := \<lparr>lock_held = False, last_call = Some td\<rparr>\<rparr>)"
    using due body by (rule update_ran)
  then show ?thesis by (intro exI [of _ lg]) simp
qed

theorem update_refines_refresh_spec_witness:
  "store_inv demo_runtime \<and>
   throttle_due MIN_TIME_BETWEEN_UPDATES False 0 (throttle demo_runtime) \<and>
   single_kind demo_zone \<and> reads_recoverable demo_api demo_world demo_zone \<and>
   single_kind demo_device \<and> reads_recoverable demo_api demo_world demo_device \<and>
   (\<exists>lg. update False 0 5 demo_runtime =
      (Inr (Ran ()), demo_runtime\<lparr>data := refresh_spec (tado demo_runtime) (world demo_runtime)
                                         (sensors demo_runtime) (data demo_runtime),
                                 throttle := \<lparr>lock_held = False, last_call = Some 5\<rparr>,
                                 log_records := log_records demo_runtime @ lg\<rparr>))"
proof -
  have h1: "store_inv demo_runtime"
    by (auto simp: store_inv_def demo_store_simps)
  have h2: "throttle_due MIN_TIME_BETWEEN_UPDATES False 0 (throttle demo_runtime)"
    by (simp add: demo_store_simps)
  have h3: "\<forall>(k, sn) \<in> set (sensors demo_runtime).
      single_kind sn \<and> reads_recoverable (tado demo_runtime) (world demo_runtime) sn"
    by (simp add: demo_store_simps single_kind_def reads_recoverable_def)
  have h4: "single_kind demo_zone \<and> reads_recoverable demo_api demo_world demo_zone \<and>
      single_kind demo_device \<and> reads_recoverable demo_api demo_world demo_device"
    using h3 by (simp add: demo_runtime_def)
  show ?thesis using h1 h2 h4 update_refines_refresh_spec [OF h1 h2 h3] by blast
qed

text \<open>
  C3: a write operation always refreshes, whatever the throttle window: when the client
  accepts \<open>setZoneOverlay\<close> with power \<open>"ON"\<close>, \<open>set_zone_overlay\<close> returns normally
  with the new remote state, a cache refreshed from that state as in C2, and the throttle
  timestamp set to the clock reading of the forced pass, even if the last pass was a
  moment ago.
\<close>

theorem set_zone_overlay_forces_refresh:
  assumes inv: "store_inv s"
    and wr: "api_setZoneOverlay (tado s) (world s) zone_id overlay_mode temperature duration
                  device_type ''ON'' mode = Inr w'"
    and reads: "\<forall>(k, sn) \<in> set (sensors s). single_kind sn \<and> reads_recoverable (tado s) w' sn"
  shows "\<exists>lg. set_zone_overlay zone_id overlay_mode temperature duration device_type mode t s =
           (Inr (), s\<lparr>data := refresh_spec (tado s) w' (sensors s) (data s),
                     throttle := \<lparr>lock_held = False, last_call = Some t\<rparr>,
                     world := w', log_records := log_records s @ lg\<rparr>)"
  unfolding set_zone_overlay_def using forced_refresh_write [OF inv wr reads] .

theorem set_zone_overlay_forces_refresh_witness:
  "store_inv (demo_runtime\<lparr>throttle := \<lparr>lock_held = False, last_call = Some 0\<rparr>\<rparr>) \<and>
   api_setZoneOverlay demo_api demo_world 1 ''MANUAL'' (Some 21.5) None ''HEATING'' ''ON'' None =
     Inr (projr (api_setZoneOverlay demo_api demo_world 1 ''MANUAL'' (Some 21.5) None ''HEATING'' ''ON'' None)) \<and>
   single_kind demo_zone \<and> single_kind demo_device \<and>
   reads_recoverable demo_api
     (projr (api_setZoneOverlay demo_api demo_world 1 ''MANUAL'' (Some 21.5) None ''HEATING'' ''ON'' None)) demo_zone \<and>
   reads_recoverable demo_api
     (projr (api_setZoneOverlay demo_api demo_world 1 ''MANUAL'' (Some 21.5) None ''HEATING'' ''ON'' None)) demo_device \<and>
   (\<exists>lg. set_zone_overlay 1 ''MANUAL'' (Some 21.5) None ''HEATING'' None 1
            (demo_runtime\<lparr>throttle := \<lparr>lock_held = False, last_call = Some 0\<rparr>\<rparr>) =
      (Inr (), demo_runtime\<lparr>
         data := refresh_spec demo_api
                   (projr (api_setZoneOverlay demo_api demo_world 1 ''MANUAL'' (Some 21.5) None ''HEATING'' ''ON'' None))
                   (sensors demo_runtime) (data demo_runtime),
         throttle := \<lparr>lock_held = False, last_call = Some 1\<rparr>,
         world := projr (api_setZoneOverlay demo_api demo_world 1 ''MANUAL'' (Some 21.5) None ''HEATING'' ''ON'' None),
         log_records := lg\<rparr>))"
proof -
  let ?s = "demo_runtime\<lparr>throttle := \<lparr>lock_held = False, last_call = Some 0\<rparr>\<rparr>"
  let ?w = "projr (api_setZoneOverlay demo_api demo_world 1 ''MANUAL'' (Some 21.5) None ''HEATING'' ''ON'' None)"
  have h1: "store_inv ?s" by (auto simp: store_inv_def demo_store_simps)
  have h2: "api_setZoneOverlay (tado ?s) (world ?s) 1 ''MANUAL'' (Some 21.5) None ''HEATING'' ''ON'' None = Inr ?w"
    by (simp add: demo_store_simps)
  have h3: "\<forall>(k, sn) \<in> set (sensors ?s). single_kind sn \<and> reads_recoverable (tado ?s) ?w sn"
    by (simp add: demo_store_simps single_kind_def reads_recoverable_def)
  from set_zone_overlay_forces_refresh [OF h1 h2 h3, of 1]
  have c: "\<exists>lg. set_zone_overlay 1 ''MANUAL'' (Some 21.5) None ''HEATING'' None 1 ?s =
      (Inr (), ?s\<lparr>data := refresh_spec (tado ?s) ?w (sensors ?s) (data ?s),
                throttle := \<lparr>lock_held = False, last_call = Some 1\<rparr>,
                world := ?w, log_records := log_records ?s @ lg\<rparr>)" .
  have h4: "single_kind demo_zone \<and> single_kind demo_device \<and>
      reads_recoverable demo_api ?w demo_zone \<and> reads_recoverable demo_api ?w demo_device"
    using h3 by (simp add: demo_runtime_def)
  from h1 h2 h4 c show ?thesis by (simp add: demo_runtime_def)
qed

text \<open>
  C4: a \<open>RuntimeError\<close> for one sensor is isolated: when the zone query of a zone
  sensor raises \<open>RuntimeError\<close>, the refresh loop logs the query and the error, sets
  that sensor's cache entry to \<open>None\<close>, and goes on with the remaining sensors exactly as
  it would have from that state.
\<close>

theorem update_entries_zone_error_isolated:
  assumes "has_zone sn" and "\<not> has_device sn"
    and "api_getState api (world s) (sensor_id sn) = Inl RuntimeError"
  shows "update_entries api ((k, sn) # xs) s =
           update_entries api xs
             (s\<lparr>data := (data s)(k \<mapsto> None),
                log_records := log_records s @
                  [Log_query_zone (sensor_id sn) (sensor_name sn),
                   Log_unable_to_connect (sensor_id sn) (sensor_id sn)]\<rparr>)"
  using assms by (simp add: update_entry_def query_sensor_def zone_query_def device_query_def)

theorem update_entries_zone_error_isolated_witness:
  "has_zone demo_zone \<and> \<not> has_device demo_zone \<and>
   api_getState demo_api (demo_world\<lparr>cloud_online := False\<rparr>) (sensor_id demo_zone) = Inl RuntimeError \<and>
   update_entries demo_api [(''zone Living 1'', demo_zone), (''device Bridge 7'', demo_device)]
     (demo_runtime\<lparr>world := demo_world\<lparr>cloud_online := False\<rparr>\<rparr>) =
   update_entries demo_api [(''device Bridge 7'', demo_device)]
     (demo_runtime\<lparr>world := demo_world\<lparr>cloud_online := False\<rparr>,
        data := (data demo_runtime)(''zone Living 1'' \<mapsto> None),
        log_records := [Log_query_zone 1 ''Living'', Log_unable_to_connect 1 1]\<rparr>)"
proof -
  let ?s = "demo_runtime\<lparr>world := demo_world\<lparr>cloud_online := False\<rparr>\<rparr>"
  have h1: "has_zone demo_zone" and h2: "\<not> has_device demo_zone"
    by (simp_all add: demo_zone_def)
  have h3: "api_getState demo_api (world ?s) (sensor_id demo_zone) = Inl RuntimeError"
    by (simp add: demo_store_simps)
  from update_entries_zone_error_isolated [OF h1 h2 h3, of "''zone Living 1''" "[(''device Bridge 7'', demo_device)]"]
    h1 h2 h3 show ?thesis by (simp add: demo_runtime_def demo_zone_def)
qed

text \<open>
  C5: an exception other than \<open>RuntimeError\<close> is not isolated. When a device sensor is
  reached while the client's device list is empty, \<open>getDevices()[0]\<close> raises
  \<open>IndexError\<close>: \<open>update\<close> propagates it, the sensors after that point (and that
  sensor itself) keep their stale cache entries, and the throttle timestamp is not
  advanced, so the next call is not throttled by the failed pass.
\<close>

theorem update_empty_device_list_aborts:
  assumes free: "\<not> lock_held (throttle s)"
    and due: "throttle_due MIN_TIME_BETWEEN_UPDATES nt tc (throttle s)"
    and split: "sensors s = xs @ (k, sn) # ys"
    and before: "\<forall>(k, sn) \<in> set xs. reads_recoverable (tado s) (world s) sn"
    and dev: "has_device sn" "\<not> has_zone sn" "api_getDevices (tado s) (world s) = Inr []"
  shows "\<exists>s'. update nt tc td s = (Inl IndexError, s') \<and> throttle s' = throttle s \<and>
              (\<forall>k'. k' \<notin> fst ` set xs \<longrightarrow> data s' k' = data s k')"
proof -
  have q: "fst (query_sensor (tado s) (world s) sn) = Some IndexError"
    using dev by (simp add: query_sensor_def zone_query_def device_query_def)
  from update_entries_escape [OF before q] obtain lg where
    body: "update_entries (tado s) (xs @ (k, sn) # ys) s =
      (Inl IndexError, s\<lparr>data := data s ++ map_of (rev (map (\<lambda>(k, sn). (k, read_value (tado s) (world s) sn)) xs)),
                         log_records := log_records s @ lg\<rparr>)"
    by blast
  let ?s' = "s\<lparr>data := data s ++ map_of (rev (map (\<lambda>(k, sn). (k, read_value (tado s) (world s) sn)) xs)),
                log_records := log_records s @ lg\<rparr>"
  from body split have "update_body s = (Inl IndexError, ?s')" by (simp add: update_body_def)
  with free due have "update nt tc td s = (Inl IndexError, ?s')" by (rule update_raised)
  moreover have "\<forall>k'. k' \<notin> fst ` set xs \<longrightarrow> data ?s' k' = data s k'"
    by (simp add: map_add_rev_outside)
  ultimately show ?thesis by auto
qed

theorem update_empty_device_list_aborts_witness:
  "\<not> lock_held (throttle (demo_runtime\<lparr>world := demo_world\<lparr>cloud_devices := []\<rparr>\<rparr>)) \<and>
   throttle_due MIN_TIME_BETWEEN_UPDATES False 0 (throttle (demo_runtime\<lparr>world := demo_world\<lparr>cloud_devices := []\<rparr>\<rparr>)) \<and>
   sensors (demo_runtime\<lparr>world := demo_world\<lparr>cloud_devices := []\<rparr>\<rparr>) =
     [(''zone Living 1'', demo_zone)] @ (''device Bridge 7'', demo_device) # [] \<and>
   reads_recoverable demo_api (demo_world\<lparr>cloud_devices := []\<rparr>) demo_zone \<and>
   has_device demo_device \<and> \<not> has_zone demo_device \<and>
   api_getDevices demo_api (demo_world\<lparr>cloud_devices := []\<rparr>) = Inr [] \<and>
   (\<exists>s'. update False 0 5 (demo_runtime\<lparr>world := demo_world\<lparr>cloud_devices := []\<rparr>\<rparr>) = (Inl IndexError, s') \<and>
         throttle s' = throttle demo_runtime \<and>
         (\<forall>k'. k' \<notin> fst ` set [(''zone Living 1'', demo_zone)] \<longrightarrow> data s' k' = data demo_runtime k'))"
proof -
  let ?s = "demo_runtime\<lparr>world := demo_world\<lparr>cloud_devices := []\<rparr>\<rparr>"
  have h1: "\<not> lock_held (throttle ?s)" and h2: "throttle_due MIN_TIME_BETWEEN_UPDATES False 0 (throttle ?s)"
    by (simp_all add: demo_store_simps)
  have h3: "sensors ?s = [(''zone Living 1'', demo_zone)] @ (''device Bridge 7'', demo_device) # []"
    by (simp add: demo_runtime_def)
  have h4: "\<forall>(k, sn) \<in> set [(''zone Living 1'', demo_zone)]. reads_recoverable (tado ?s) (world ?s) sn"
    by (simp add: demo_store_simps reads_recoverable_def)
  have h5: "has_device demo_device" "\<not> has_zone demo_device"
    by (simp_all add: demo_device_def)
  have h6: "api_getDevices (tado ?s) (world ?s) = Inr []" by (simp add: demo_store_simps)
  from update_empty_device_list_aborts [OF h1 h2 h3 h4 h5 h6, of 5] h1 h2 h3 h4 h5 h6
  show ?thesis by (simp add: demo_runtime_def)
qed

text \<open>
  C7: \<open>get_data\<close> on an id that no sensor was registered under returns the placeholder
  \<open>{"error": "no data"}\<close> (and, being total, never raises).
\<close>

theorem get_data_unregistered:
  assumes "store_inv s" and "k \<notin> fst ` set (sensors s)"
  shows "get_data s k = No_data"
proof -
  from assms have "k \<notin> dom (data s)" by (simp add: store_inv_def)
  then show ?thesis by (simp add: get_data_def domIff)
qed

theorem get_data_unregistered_witness:
  "store_inv demo_runtime \<and> ''zone Kitchen 2'' \<notin> fst ` set (sensors demo_runtime) \<and>
   get_data demo_runtime ''zone Kitchen 2'' = No_data"
proof -
  have h1: "store_inv demo_runtime" by (auto simp: store_inv_def demo_store_simps)
  have h2: "''zone Kitchen 2'' \<notin> fst ` set (sensors demo_runtime)" by (simp add: demo_runtime_def)
  from h1 h2 get_data_unregistered [OF h1 h2] show ?thesis by simp
qed

text \<open>
  C8: registering a sensor creates its cache entry: after \<open>add_sensor k sn\<close>,
  \<open>get_data\<close> returns an empty cached value for \<open>k\<close> and what it returned before for
  every other id.
\<close>

theorem get_data_add_sensor: "get_data (add_sensor k sn s) = (get_data s)(k := Cached None)"
  by (simp add: get_data_def add_sensor_def fun_eq_iff)

text \<open>
  C11: the throttle window is strict and exactly ten seconds: an unforced \<open>update\<close> on an
  idle store whose last pass ended at \<open>t0\<close> is throttled if and only if the clock
  reading is at most \<open>t0\<close> plus 10 000 000 microseconds.
\<close>

theorem update_throttled_iff:
  assumes free: "\<not> lock_held (throttle s)" and last: "last_call (throttle s) = Some t0"
  shows "fst (update False tc td s) = Inr Throttled \<longleftrightarrow> tc - t0 \<le> 10000000"
proof (cases "tc - t0 \<le> 10000000")
  case True
  with last have "\<not> throttle_due MIN_TIME_BETWEEN_UPDATES False tc (throttle s)"
    by (simp add: throttle_due_def MIN_TIME_BETWEEN_UPDATES_def)
  then have "update False tc td s = (Inr Throttled, s)" by (intro update_skipped) simp
  with True show ?thesis by simp
next
  case False
  with last have due: "throttle_due MIN_TIME_BETWEEN_UPDATES False tc (throttle s)"
    by (simp add: throttle_due_def MIN_TIME_BETWEEN_UPDATES_def)
  obtain r0 s0 where body: "update_body s = (r0, s0)" by fastforce
  have "fst (update False tc td s) \<noteq> Inr Throttled"
  proof (cases r0)
    case (Inl e)
    with update_raised [OF free due] body show ?thesis by simp
  next
    case (Inr u)
    with update_ran [OF free due] body show ?thesis by simp
  qed
  with False show ?thesis by simp
qed

theorem update_throttled_iff_witness:
  "\<not> lock_held (throttle (demo_runtime\<lparr>throttle := \<lparr>lock_held = False, last_call = Some 0\<rparr>\<rparr>)) \<and>
   last_call (throttle (demo_runtime\<lparr>throttle := \<lparr>lock_held = False, last_call = Some 0\<rparr>\<rparr>)) = Some 0 \<and>
   (fst (update False 10000001 10000002 (demo_runtime\<lparr>throttle := \<lparr>lock_held = False, last_call = Some 0\<rparr>\<rparr>))
      = Inr Throttled \<longleftrightarrow> (10000001 :: int) - 0 \<le> 10000000)"
proof -
  let ?s = "demo_runtime\<lparr>throttle := \<lparr>lock_held = False, last_call = Some 0\<rparr>\<rparr>"
  have h1: "\<not> lock_held (throttle ?s)" and h2: "last_call (throttle ?s) = Some 0" by simp_all
  from update_throttled_iff [OF h1 h2, of 10000001 10000002] h1 h2 show ?thesis by simp
qed

text \<open>
  C12: for a sensor descriptor that carries both the \<open>"zone"\<close> and the \<open>"device"\<close>
  key, a \<open>RuntimeError\<close> of the device query does not clear the entry: the local
  \<open>data\<close> still holds the zone state read just before, and that is what is cached.
\<close>

theorem update_entry_both_keys_keeps_zone:
  assumes "has_zone sn" and "has_device sn"
    and "api_getState api (world s) (sensor_id sn) = Inr z"
    and "api_getDevices api (world s) = Inl RuntimeError"
  shows "data (snd (update_entry api (k, sn) s)) = (data s)(k \<mapsto> Some z)"
  using assms by (simp add: update_entry_def query_sensor_def zone_query_def device_query_def)

theorem update_entry_both_keys_keeps_zone_witness:
  "has_zone (demo_zone\<lparr>has_device := True\<rparr>) \<and> has_device (demo_zone\<lparr>has_device := True\<rparr>) \<and>
   api_getState (demo_api\<lparr>api_getDevices := (\<lambda>w. Inl RuntimeError)\<rparr>) demo_world 1 = Inr None \<and>
   api_getDevices (demo_api\<lparr>api_getDevices := (\<lambda>w. Inl RuntimeError)\<rparr>) demo_world = Inl RuntimeError \<and>
   data (snd (update_entry (demo_api\<lparr>api_getDevices := (\<lambda>w. Inl RuntimeError)\<rparr>)
                 (''zone Living 1'', demo_zone\<lparr>has_device := True\<rparr>) demo_runtime)) =
     (data demo_runtime)(''zone Living 1'' \<mapsto> Some None)"
proof -
  let ?api = "demo_api\<lparr>api_getDevices := (\<lambda>w. Inl RuntimeError)\<rparr>"
  let ?sn = "demo_zone\<lparr>has_device := True\<rparr>"
  have h1: "has_zone ?sn" and h2: "has_device ?sn" by (simp_all add: demo_zone_def)
  have h3: "api_getState ?api (world demo_runtime) (sensor_id ?sn) = Inr None"
    by (simp add: demo_store_simps)
  have h4: "api_getDevices ?api (world demo_runtime) = Inl RuntimeError" by simp
  from update_entry_both_keys_keeps_zone [OF h1 h2 h3 h4, of "''zone Living 1''"] h1 h2 h3 h4
  show ?thesis by (simp add: demo_store_simps)
qed

text \<open>
  C17: \<open>reset_zone_overlay\<close> always refreshes: when the client accepts
  \<open>resetZoneOverlay\<close>, the operation returns normally with the new remote state, a
  cache refreshed from it as the refresh specification says, and the throttle timestamp
  set to the forced pass.
\<close>

theorem reset_zone_overlay_forces_refresh:
  assumes inv: "store_inv s"
    and wr: "api_resetZoneOverlay (tado s) (world s) zone_id = Inr w'"
    and reads: "\<forall>(k, sn) \<in> set (sensors s). single_kind sn \<and> reads_recoverable (tado s) w' sn"
  shows "\<exists>lg. reset_zone_overlay zone_id t s =
           (Inr (), s\<lparr>data := refresh_spec (tado s) w' (sensors s) (data s),
                     throttle := \<lparr>lock_held = False, last_call = Some t\<rparr>,
                     world := w', log_records := log_records s @ lg\<rparr>)"
  unfolding reset_zone_overlay_def using forced_refresh_write [OF inv wr reads] .

theorem reset_zone_overlay_forces_refresh_witness:
  "store_inv demo_runtime \<and>
   api_resetZoneOverlay demo_api demo_world 1 = Inr (demo_world\<lparr>cloud_overlays := (\<lambda>_. None)\<rparr>) \<and>
   single_kind demo_zone \<and> single_kind demo_device \<and>
   reads_recoverable demo_api (demo_world\<lparr>cloud_overlays := (\<lambda>_. None)\<rparr>) demo_zone \<and>
   reads_recoverable demo_api (demo_world\<lparr>cloud_overlays := (\<lambda>_. None)\<rparr>) demo_device \<and>
   (\<exists>lg. reset_zone_overlay 1 3 demo_runtime =
      (Inr (), demo_runtime\<lparr>
         data := refresh_spec demo_api (demo_world\<lparr>cloud_overlays := (\<lambda>_. None)\<rparr>)
                   (sensors demo_runtime) (data demo_runtime),
         throttle := \<lparr>lock_held = False, last_call = Some 3\<rparr>,
         world := demo_world\<lparr>cloud_overlays := (\<lambda>_. None)\<rparr>,
         log_records := lg\<rparr>))"
proof -
  let ?w = "demo_world\<lparr>cloud_overlays := (\<lambda>_. None)\<rparr>"
  have h1: "store_inv demo_runtime" by (auto simp: store_inv_def demo_store_simps)
  have h2: "api_resetZoneOverlay (tado demo_runtime) (world demo_runtime) 1 = Inr ?w"
    by (simp add: demo_store_simps fun_eq_iff)
  have h3: "\<forall>(k, sn) \<in> set (sensors demo_runtime). single_kind sn \<and> reads_recoverable (tado demo_runtime) ?w sn"
    by (simp add: demo_store_simps single_kind_def reads_recoverable_def)
  from reset_zone_overlay_forces_refresh [OF h1 h2 h3, of 3]
  have c: "\<exists>lg. reset_zone_overlay 1 3 demo_runtime =
      (Inr (), demo_runtime\<lparr>data := refresh_spec (tado demo_runtime) ?w (sensors demo_runtime) (data demo_runtime),
                throttle := \<lparr>lock_held = False, last_call = Some 3\<rparr>,
                world := ?w, log_records := log_records demo_runtime @ lg\<rparr>)" .
  have h4: "single_kind demo_zone \<and> single_kind demo_device \<and>
      reads_recoverable demo_api ?w demo_zone \<and> reads_recoverable demo_api ?w demo_device"
    using h3 by (simp add: demo_runtime_def)
  from h1 h2 h4 c show ?thesis by (simp add: demo_runtime_def)
qed

text \<open>
  C18: \<open>set_zone_off\<close> sends \<open>setZoneOverlay\<close> with power \<open>"OFF"\<close>, no temperature,
  no duration and no mode, and when the client accepts it, refreshes the cache from the
  new remote state whatever the throttle window.
\<close>

theorem set_zone_off_forces_refresh:
  assumes inv: "store_inv s"
    and wr: "api_setZoneOverlay (tado s) (world s) zone_id overlay_mode None None device_type ''OFF'' None = Inr w'"
    and reads: "\<forall>(k, sn) \<in> set (sensors s). single_kind sn \<and> reads_recoverable (tado s) w' sn"
  shows "\<exists>lg. set_zone_off zone_id overlay_mode device_type t s =
           (Inr (), s\<lparr>data := refresh_spec (tado s) w' (sensors s) (data s),
                     throttle := \<lparr>lock_held = False, last_call = Some t\<rparr>,
                     world := w', log_records := log_records s @ lg\<rparr>)"
  unfolding set_zone_off_def using forced_refresh_write [OF inv wr reads] .

theorem set_zone_off_forces_refresh_witness:
  "store_inv demo_runtime \<and>
   api_setZoneOverlay demo_api demo_world 1 ''MANUAL'' None None ''HEATING'' ''OFF'' None = Inr (projr (api_setZoneOverlay demo_api demo_world 1 ''MANUAL'' None None ''HEATING'' ''OFF'' None)) \<and>
   single_kind demo_zone \<and> single_kind demo_device \<and>
   reads_recoverable demo_api (projr (api_setZoneOverlay demo_api demo_world 1 ''MANUAL'' None None ''HEATING'' ''OFF'' None)) demo_zone \<and> reads_recoverable demo_api (projr (api_setZoneOverlay demo_api demo_world 1 ''MANUAL'' None None ''HEATING'' ''OFF'' None)) demo_device \<and>
   (\<exists>lg. set_zone_off 1 ''MANUAL'' ''HEATING'' 2 demo_runtime =
      (Inr (), demo_runtime\<lparr>
         data := refresh_spec demo_api (projr (api_setZoneOverlay demo_api demo_world 1 ''MANUAL'' None None ''HEATING'' ''OFF'' None)) (sensors demo_runtime) (data demo_runtime),
         throttle := \<lparr>lock_held = False, last_call = Some 2\<rparr>,
         world := projr (api_setZoneOverlay demo_api demo_world 1 ''MANUAL'' None None ''HEATING'' ''OFF'' None), log_records := lg\<rparr>)) \<and>
   refresh_spec demo_api (projr (api_setZoneOverlay demo_api demo_world 1 ''MANUAL'' None None ''HEATING'' ''OFF'' None)) (sensors demo_runtime) (data demo_runtime) ''zone Living 1'' =
     Some (Some (Some \<lparr>ov_mode = ''MANUAL'', ov_temperature = None, ov_duration = None,
                       ov_device_type = ''HEATING'', ov_power = ''OFF'', ov_hvac_mode = None\<rparr>))"
proof -
  let ?w = "projr (api_setZoneOverlay demo_api demo_world 1 ''MANUAL'' None None ''HEATING'' ''OFF'' None)"
  have h1: "store_inv demo_runtime" by (auto simp: store_inv_def demo_store_simps)
  have h2: "api_setZoneOverlay (tado demo_runtime) (world demo_runtime) 1 ''MANUAL'' None None ''HEATING'' ''OFF'' None = Inr ?w"
    by (simp add: demo_store_simps)
  have h3: "\<forall>(k, sn) \<in> set (sensors demo_runtime). single_kind sn \<and> reads_recoverable (tado demo_runtime) ?w sn"
    by (simp add: demo_store_simps single_kind_def reads_recoverable_def)
  from set_zone_off_forces_refresh [OF h1 h2 h3, of 2]
  have c: "\<exists>lg. set_zone_off 1 ''MANUAL'' ''HEATING'' 2 demo_runtime =
      (Inr (), demo_runtime\<lparr>data := refresh_spec (tado demo_runtime) ?w (sensors demo_runtime) (data demo_runtime),
                throttle := \<lparr>lock_held = False, last_call = Some 2\<rparr>,
                world := ?w, log_records := log_records demo_runtime @ lg\<rparr>)" .
  have h4: "single_kind demo_zone \<and> single_kind demo_device \<and>
      reads_recoverable demo_api ?w demo_zone \<and> reads_recoverable demo_api ?w demo_device"
    using h3 by (simp add: demo_runtime_def)
  have h5: "refresh_spec demo_api ?w (sensors demo_runtime) (data demo_runtime) ''zone Living 1'' =
     Some (Some (Some \<lparr>ov_mode = ''MANUAL'', ov_temperature = None, ov_duration = None,
                       ov_device_type = ''HEATING'', ov_power = ''OFF'', ov_hvac_mode = None\<rparr>))"
    by (simp add: refresh_spec_def spec_read_def demo_store_simps)
  from h1 h2 h4 h5 c show ?thesis by (simp add: demo_runtime_def)
qed

text \<open>
  C19: an effective refresh pass is one batch of remote queries, one per registered
  sensor: on a well-formed store whose sensors track one kind each and whose reads fail
  only with \<open>RuntimeError\<close>, the query records the pass adds to the log are exactly one
  zone or device query per registered sensor, in registry order.
\<close>

theorem update_one_query_per_sensor:
  assumes inv: "store_inv s"
    and due: "throttle_due MIN_TIME_BETWEEN_UPDATES nt tc (throttle s)"
    and reads: "\<forall>(k, sn) \<in> set (sensors s). single_kind sn \<and> reads_recoverable (tado s) (world s) sn"
  shows "\<exists>lg. log_records (snd (update nt tc td s)) = log_records s @ lg \<and>
              filter is_query lg = concat (map (\<lambda>(k, sn). sensor_queries sn) (sensors s))"
proof -
  from inv reads obtain lg0 where body: "update_body s =
      (Inr (), s\<lparr>data := refresh_spec (tado s) (world s) (sensors s) (data s),
                log_records := log_records s @ lg0\<rparr>)"
    using update_body_refresh by blast
  from inv have free: "\<not> lock_held (throttle s)" by (simp add: store_inv_def)
  from body obtain lg where l: "log_records s @ lg0 = log_records s @ lg"
    and q: "filter is_query lg = concat (map (\<lambda>(k, sn). filter is_query (snd (snd (query_sensor (tado s) (world s) sn)))) (sensors s))"
    using update_entries_log [of "tado s" "sensors s" s] by (auto simp: update_body_def)
  have "concat (map (\<lambda>(k, sn). filter is_query (snd (snd (query_sensor (tado s) (world s) sn)))) (sensors s)) =
        concat (map (\<lambda>(k, sn). sensor_queries sn) (sensors s))"
  proof (intro arg_cong [where f = concat] map_cong refl)
    fix x assume "x \<in> set (sensors s)"
    with reads show "(\<lambda>(k, sn). filter is_query (snd (snd (query_sensor (tado s) (world s) sn)))) x =
        (\<lambda>(k, sn). sensor_queries sn) x"
      by (auto simp: query_sensor_queries)
  qed
  with update_ran [OF free due body, of td] l q show ?thesis by auto
qed

theorem update_one_query_per_sensor_witness:
  "store_inv demo_runtime \<and>
   throttle_due MIN_TIME_BETWEEN_UPDATES False 0 (throttle demo_runtime) \<and>
   single_kind demo_zone \<and> reads_recoverable demo_api demo_world demo_zone \<and>
   single_kind demo_device \<and> reads_recoverable demo_api demo_world demo_device \<and>
   (\<exists>lg. log_records (snd (update False 0 5 demo_runtime)) = log_records demo_runtime @ lg \<and>
         filter is_query lg = [Log_query_zone 1 ''Living'', Log_query_device 7 ''Bridge''])"
proof -
  have h1: "store_inv demo_runtime" by (auto simp: store_inv_def demo_store_simps)
  have h2: "throttle_due MIN_TIME_BETWEEN_UPDATES False 0 (throttle demo_runtime)"
    by (simp add: demo_store_simps)
  have h3: "\<forall>(k, sn) \<in> set (sensors demo_runtime).
      single_kind sn \<and> reads_recoverable (tado demo_runtime) (world demo_runtime) sn"
    by (simp add: demo_store_simps single_kind_def reads_recoverable_def)
  have h4: "single_kind demo_zone \<and> reads_recoverable demo_api demo_world demo_zone \<and>
      single_kind demo_device \<and> reads_recoverable demo_api demo_world demo_device"
    using h3 by (simp add: demo_runtime_def)
  have q: "concat (map (\<lambda>(k, sn). sensor_queries sn) (sensors demo_runtime)) =
      [Log_query_zone 1 ''Living'', Log_query_device 7 ''Bridge'']"
    by (simp add: demo_runtime_def demo_zone_def demo_device_def sensor_queries_def)
  from update_one_query_per_sensor [OF h1 h2 h3, of 5] q h1 h2 h4 show ?thesis by simp
qed

text \<open>
  C20: a write the client rejects changes nothing and refreshes nothing: when
  \<open>setZoneOverlay\<close> or \<open>resetZoneOverlay\<close> raises, \<open>set_zone_overlay\<close>,
  \<open>set_zone_off\<close> and \<open>reset_zone_overlay\<close> propagate the exception before
  \<open>update\<close> is called, leaving the cache, the log and the throttle as they were.
\<close>

theorem write_errors_skip_refresh:
  "(api_setZoneOverlay (tado s) (world s) z om tp du dt ''ON'' m = Inl e \<longrightarrow>
      set_zone_overlay z om tp du dt m t s = (Inl e, s)) \<and>
   (api_setZoneOverlay (tado s) (world s) z om None None dt ''OFF'' None = Inl e \<longrightarrow>
      set_zone_off z om dt t s = (Inl e, s)) \<and>
   (api_resetZoneOverlay (tado s) (world s) z = Inl e \<longrightarrow>
      reset_zone_overlay z t s = (Inl e, s))"
  by (simp add: set_zone_overlay_def set_zone_off_def reset_zone_overlay_def)

theorem write_errors_skip_refresh_witness:
  "api_setZoneOverlay demo_api (demo_world\<lparr>cloud_online := False\<rparr>) 1 ''MANUAL'' (Some 20) None ''HEATING'' ''ON'' None
     = Inl HTTPError \<and>
   set_zone_overlay 1 ''MANUAL'' (Some 20) None ''HEATING'' None 4 (demo_runtime\<lparr>world := demo_world\<lparr>cloud_online := False\<rparr>\<rparr>)
     = (Inl HTTPError, demo_runtime\<lparr>world := demo_world\<lparr>cloud_online := False\<rparr>\<rparr>) \<and>
   api_setZoneOverlay demo_api (demo_world\<lparr>cloud_online := False\<rparr>) 1 ''MANUAL'' None None ''HEATING'' ''OFF'' None
     = Inl HTTPError \<and>
   set_zone_off 1 ''MANUAL'' ''HEATING'' 4 (demo_runtime\<lparr>world := demo_world\<lparr>cloud_online := False\<rparr>\<rparr>)
     = (Inl HTTPError, demo_runtime\<lparr>world := demo_world\<lparr>cloud_online := False\<rparr>\<rparr>) \<and>
   api_resetZoneOverlay demo_api (demo_world\<lparr>cloud_online := False\<rparr>) 1 = Inl HTTPError \<and>
   reset_zone_overlay 1 4 (demo_runtime\<lparr>world := demo_world\<lparr>cloud_online := False\<rparr>\<rparr>)
     = (Inl HTTPError, demo_runtime\<lparr>world := demo_world\<lparr>cloud_online := False\<rparr>\<rparr>)"
proof -
  let ?s = "demo_runtime\<lparr>world := demo_world\<lparr>cloud_online := False\<rparr>\<rparr>"
  have h1: "api_setZoneOverlay (tado ?s) (world ?s) 1 ''MANUAL'' (Some 20) None ''HEATING'' ''ON'' None = Inl HTTPError"
    and h2: "api_setZoneOverlay (tado ?s) (world ?s) 1 ''MANUAL'' None None ''HEATING'' ''OFF'' None = Inl HTTPError"
    and h3: "api_resetZoneOverlay (tado ?s) (world ?s) 1 = Inl HTTPError"
    by (simp_all add: demo_store_simps)
  from write_errors_skip_refresh [of ?s 1 "''MANUAL''" "Some 20" None "''HEATING''" None HTTPError 4]
    write_errors_skip_refresh [of ?s 1 "''MANUAL''" None None "''HEATING''" None HTTPError 4]
    h1 h2 h3
  show ?thesis by (simp add: demo_runtime_def)
qed

lemma forced_refresh_record:
  assumes inv: "store_inv s" and r: "forced_refresh t s = (Inr u, s')"
  shows "throttle s' = \<lparr>lock_held = False, last_call = Some t\<rparr>"
proof -
  obtain r0 where upd: "update True t t s = (r0, s')" and r0: "map_sum id (\<lambda>_. ()) r0 = Inr u"
    using r by (auto simp: forced_refresh_def split: prod.splits)
  from inv have "\<not> lock_held (throttle s)" by (simp add: store_inv_def)
  then have "r0 \<noteq> Inr Throttled"
    using upd update_throttled_same_store by blast
  moreover obtain b where "r0 = Inr b" using r0 by (cases r0) auto
  ultimately have "r0 = Inr (Ran ())" by (cases b) auto
  with upd show ?thesis by (simp add: update_ran_record)
qed

text \<open>
  C21: a write restarts the throttle window: after \<open>set_zone_overlay\<close> has returned
  normally at clock reading \<open>t\<close> on a well-formed store, an unforced \<open>update\<close> whose
  clock reading is at most \<open>MIN_TIME_BETWEEN_UPDATES\<close> after \<open>t\<close> is throttled and
  changes nothing.
\<close>

theorem write_then_poll_throttled:
  assumes inv: "store_inv s"
    and wr: "set_zone_overlay z om tp du dt m t s = (Inr (), s')"
    and window: "t2 - t \<le> MIN_TIME_BETWEEN_UPDATES"
  shows "update False t2 t2' s' = (Inr Throttled, s')"
proof -
  obtain w' where w': "api_setZoneOverlay (tado s) (world s) z om tp du dt ''ON'' m = Inr w'"
    and f: "forced_refresh t (s\<lparr>world := w'\<rparr>) = (Inr (), s')"
    using wr by (auto simp: set_zone_overlay_def split: sum.splits)
  from inv have "store_inv (s\<lparr>world := w'\<rparr>)" by simp
  from forced_refresh_record [OF this f]
  have "throttle s' = \<lparr>lock_held = False, last_call = Some t\<rparr>" .
  with window have "\<not> throttle_due MIN_TIME_BETWEEN_UPDATES False t2 (throttle s')"
    by (simp add: throttle_due_def)
  then show ?thesis by (intro update_skipped) simp
qed

theorem write_then_poll_throttled_witness:
  "store_inv demo_runtime \<and>
   set_zone_overlay 1 ''MANUAL'' (Some 21) None ''HEATING'' None 7 demo_runtime =
     (Inr (), snd (set_zone_overlay 1 ''MANUAL'' (Some 21) None ''HEATING'' None 7 demo_runtime)) \<and>
   (9000000 :: int) - 7 \<le> MIN_TIME_BETWEEN_UPDATES \<and>
   update False 9000000 9000001 (snd (set_zone_overlay 1 ''MANUAL'' (Some 21) None ''HEATING'' None 7 demo_runtime)) =
     (Inr Throttled, snd (set_zone_overlay 1 ''MANUAL'' (Some 21) None ''HEATING'' None 7 demo_runtime))"
proof -
  have h1: "store_inv demo_runtime" by (auto simp: store_inv_def demo_store_simps)
  have h2: "set_zone_overlay 1 ''MANUAL'' (Some 21) None ''HEATING'' None 7 demo_runtime =
     (Inr (), snd (set_zone_overlay 1 ''MANUAL'' (Some 21) None ''HEATING'' None 7 demo_runtime))"
    by (simp add: store_eval_simps demo_store_simps)
  have h3: "(9000000 :: int) - 7 \<le> MIN_TIME_BETWEEN_UPDATES" by (simp add: MIN_TIME_BETWEEN_UPDATES_def)
  from h1 h2 h3 write_then_poll_throttled [OF h1 h2 h3] show ?thesis by simp
qed

end
