(* ===== verification/Setup.thy ===== *)
theory Setup
  imports Data_Store
begin

text \<open>
  The component's entry point and its configuration, lines 16-53 of
  \<open>src/homeassistant/components/tado/__init__.py\<close>: the constants, \<open>CONFIG_SCHEMA\<close>
  (a voluptuous schema, here a validation function on configuration values), and
  \<open>setup(hass, config)\<close>, which logs in, stores a fresh \<open>TadoDataStore\<close> under
  \<open>hass.data[DATA_TADO]\<close> and asks the host to load the sensor and climate platforms.
  The client constructor \<open>Tado(username, password)\<close> is a parameter \<open>login\<close>;
  \<open>setDebugging(True)\<close> only switches the client's HTTP debug output and has no effect
  the component observes.
\<close>

definition DATA_TADO :: string where "DATA_TADO = ''tado_data''"
definition DOMAIN :: string where "DOMAIN = ''tado''"
definition TADO_COMPONENTS :: "string list" where "TADO_COMPONENTS = [''sensor'', ''climate'']"

text \<open>\<open>homeassistant.const\<close>: the configuration keys.\<close>

definition CONF_USERNAME :: string where "CONF_USERNAME = ''username''"
definition CONF_PASSWORD :: string where "CONF_PASSWORD = ''password''"

section \<open>Configuration values\<close>

text \<open>The YAML values a configuration is made of; a dictionary keeps its key order.\<close>

datatype cfg_value =
    CStr string
  | CInt int
  | CBool bool
  | CNone
  | CList "cfg_value list"
  | CDict "(string \<times> cfg_value) list"

type_synonym config = "(string \<times> cfg_value) list"

text \<open>Python's \<open>str\<close> of an int.\<close>

fun decimal :: "nat \<Rightarrow> string" where
  "decimal n =
     (if n < 10 then [''0123456789'' ! n] else decimal (n div 10) @ [''0123456789'' ! (n mod 10)])"

definition py_str_int :: "int \<Rightarrow> string" where
  "py_str_int i = (if i < 0 then CHR ''-'' # decimal (nat (- i)) else decimal (nat i))"

text \<open>
  \<open>cv.string\<close> of \<open>homeassistant.helpers.config_validation\<close>: \<open>None\<close>, lists and
  dictionaries are invalid, anything else is converted with \<open>str\<close>.
\<close>

fun cv_string :: "cfg_value \<Rightarrow> py_exception + string" where
  "cv_string (CStr s) = Inr s"
| "cv_string (CInt i) = Inr (py_str_int i)"
| "cv_string (CBool b) = Inr (if b then ''True'' else ''False'')"
| "cv_string CNone = Inl Invalid"
| "cv_string (CList _) = Inl Invalid"
| "cv_string (CDict _) = Inl Invalid"

text \<open>
  The inner schema \<open>vol.Schema({vol.Required(CONF_USERNAME): cv.string,
  vol.Required(CONF_PASSWORD): cv.string})\<close>: a dictionary, whose keys other than the
  two are rejected (voluptuous' default \<open>PREVENT_EXTRA\<close>), whose two keys must be
  present, and whose values are converted by \<open>cv.string\<close>.
\<close>

definition validate_entry :: "(string \<times> cfg_value) \<Rightarrow> py_exception + (string \<times> cfg_value)" where
  "validate_entry kv =
     (case kv of (k, v) \<Rightarrow>
        if k = CONF_USERNAME \<or> k = CONF_PASSWORD then
          (case cv_string v of Inl e \<Rightarrow> Inl e | Inr s \<Rightarrow> Inr (k, CStr s))
        else Inl Invalid)"

fun validate_entries :: "(string \<times> cfg_value) list \<Rightarrow> py_exception + (string \<times> cfg_value) list" where
  "validate_entries [] = Inr []"
| "validate_entries (kv # kvs) =
     (case validate_entry kv of
        Inl e \<Rightarrow> Inl e
      | Inr kv' \<Rightarrow> (case validate_entries kvs of Inl e \<Rightarrow> Inl e | Inr kvs' \<Rightarrow> Inr (kv' # kvs')))"

definition tado_schema :: "cfg_value \<Rightarrow> py_exception + cfg_value" where
  "tado_schema v =
     (case v of
        CDict kvs \<Rightarrow>
          (case validate_entries kvs of
             Inl e \<Rightarrow> Inl e
           | Inr kvs' \<Rightarrow>
               if CONF_USERNAME \<in> fst ` set kvs \<and> CONF_PASSWORD \<in> fst ` set kvs
               then Inr (CDict kvs') else Inl Invalid)
      | _ \<Rightarrow> Inl Invalid)"

text \<open>
  The outer schema \<open>vol.Schema({DOMAIN: ...}, extra=vol.ALLOW_EXTRA)\<close>: the key
  \<open>DOMAIN\<close> is optional (voluptuous keys are optional unless marked required) and, when
  present, validated; every other key passes unchanged.
\<close>

fun CONFIG_SCHEMA :: "config \<Rightarrow> py_exception + config" where
  "CONFIG_SCHEMA [] = Inr []"
| "CONFIG_SCHEMA ((k, v) # kvs) =
     (case (if k = DOMAIN then tado_schema v else Inr v) of
        Inl e \<Rightarrow> Inl e
      | Inr v' \<Rightarrow> (case CONFIG_SCHEMA kvs of Inl e \<Rightarrow> Inl e | Inr kvs' \<Rightarrow> Inr ((k, v') # kvs')))"

text \<open>
  The contract of the inner schema, as voluptuous documents it: a dictionary whose keys
  are exactly the two required keys (\<open>Required\<close>, \<open>PREVENT_EXTRA\<close>) and each of whose
  values \<open>cv.string\<close> accepts; the result has every value converted, in the input's
  order. Every failure is \<open>vol.Invalid\<close>.
\<close>

definition tado_schema_spec :: "cfg_value \<Rightarrow> py_exception + cfg_value" where
  "tado_schema_spec v =
     (case v of
        CDict kvs \<Rightarrow>
          if fst ` set kvs = {CONF_USERNAME, CONF_PASSWORD} \<and> (\<forall>(k, x) \<in> set kvs. \<not> isl (cv_string x))
          then Inr (CDict (map (\<lambda>(k, x). (k, CStr (projr (cv_string x)))) kvs))
          else Inl Invalid
      | _ \<Rightarrow> Inl Invalid)"

section \<open>The host and setup\<close>

text \<open>
  The part of the host the component touches: \<open>hass.data\<close> (only the component's own
  entry is modelled), the platform loads requested by \<open>load_platform\<close>, and the log.
\<close>

record ('w, 'p) hass =
  hass_data :: "string \<rightharpoonup> ('w, 'p) TadoDataStore"
  platform_loads :: "(string \<times> string) list"
  hass_log :: "log_entry list"

text \<open>\<open>load_platform(hass, component, platform, discovered, hass_config)\<close> schedules the load.\<close>

definition load_platform :: "('w, 'p) hass \<Rightarrow> string \<Rightarrow> string \<Rightarrow> ('w, 'p) hass" where
  "load_platform h component platform =
     h\<lparr>platform_loads := platform_loads h @ [(component, platform)]\<rparr>"

text \<open>Python's \<open>d[k]\<close> on a configuration value.\<close>

definition cfg_get :: "cfg_value \<Rightarrow> string \<Rightarrow> py_exception + cfg_value" where
  "cfg_get v k =
     (case v of
        CDict kvs \<Rightarrow> (case map_of kvs k of Some x \<Rightarrow> Inr x | None \<Rightarrow> Inl KeyError)
      | _ \<Rightarrow> Inl TypeError)"

definition setup_tado ::
  "(cfg_value \<Rightarrow> cfg_value \<Rightarrow> py_exception + ('w, 'p) tado_api) \<Rightarrow>
   ('w, 'p) hass \<Rightarrow> config \<Rightarrow> (py_exception + bool) \<times> ('w, 'p) hass" where
  "setup_tado login h config =
     (case cfg_get (CDict config) DOMAIN of
        Inl e \<Rightarrow> (Inl e, h)
      | Inr conf \<Rightarrow>
          (case cfg_get conf CONF_USERNAME of
             Inl e \<Rightarrow> (Inl e, h)
           | Inr username \<Rightarrow>
               (case cfg_get conf CONF_PASSWORD of
                  Inl e \<Rightarrow> (Inl e, h)
                | Inr password \<Rightarrow>
                    (case login username password of
                       Inl e \<Rightarrow>
                         if e = RuntimeError \<or> e = HTTPError
                         then (Inr False, h\<lparr>hass_log := hass_log h @ [Log_setup_failed]\<rparr>)
                         else (Inl e, h)
                     | Inr client \<Rightarrow>
                         (Inr True,
                          fold (\<lambda>component h. load_platform h component DOMAIN) TADO_COMPONENTS
                            (h\<lparr>hass_data := (hass_data h)(DATA_TADO \<mapsto> TadoDataStore_init client)\<rparr>))))))"

section \<open>A concrete host\<close>

definition demo_hass :: "(demo_cloud, overlay_request option) hass" where
  "demo_hass = \<lparr>hass_data = Map.empty, platform_loads = [], hass_log = []\<rparr>"

definition demo_config :: config where
  "demo_config =
     [(''tado'', CDict [(''username'', CStr ''me@example.com''), (''password'', CStr ''secret'')]),
      (''homeassistant'', CDict [(''name'', CStr ''Home'')])]"

lemmas setup_simps = setup_tado_def cfg_get_def TADO_COMPONENTS_def load_platform_def DOMAIN_def
  DATA_TADO_def CONF_USERNAME_def CONF_PASSWORD_def

section \<open>Lemmas on the schema\<close>

lemma validate_entry_error: "validate_entry kv = Inl e \<Longrightarrow> e = Invalid"
proof -
  assume a: "validate_entry kv = Inl e"
  obtain k v where kv: "kv = (k, v)" by fastforce
  with a show ?thesis by (cases v) (auto simp: validate_entry_def split: if_splits)
qed

lemma validate_entries_error: "validate_entries kvs = Inl e \<Longrightarrow> e = Invalid"
  by (induction kvs) (auto dest: validate_entry_error split: sum.splits)

lemma validate_entries_extra:
  "(k, v) \<in> set kvs \<Longrightarrow> k \<noteq> CONF_USERNAME \<Longrightarrow> k \<noteq> CONF_PASSWORD \<Longrightarrow>
   validate_entries kvs = Inl Invalid"
proof (induction kvs)
  case Nil
  then show ?case by simp
next
  case (Cons kv kvs)
  show ?case
  proof (cases "kv = (k, v)")
    case True
    with Cons.prems show ?thesis by (simp add: validate_entry_def)
  next
    case False
    with Cons have "validate_entries kvs = Inl Invalid" by simp
    then show ?thesis by (auto dest: validate_entry_error split: sum.split)
  qed
qed

lemma config_schema_domain:
  "CONFIG_SCHEMA raw = Inr config \<Longrightarrow> map_of raw DOMAIN = Some v \<Longrightarrow>
   \<exists>v'. tado_schema v = Inr v' \<and> map_of config DOMAIN = Some v'"
proof (induction raw arbitrary: config)
  case Nil
  then show ?case by simp
next
  case (Cons kv kvs)
  obtain k v0 where kv: "kv = (k, v0)" by fastforce
  show ?case
  proof (cases "k = DOMAIN")
    case True
    with Cons.prems kv show ?thesis by (auto split: sum.splits)
  next
    case False
    with Cons.prems kv obtain kvs' where "CONFIG_SCHEMA kvs = Inr kvs'" and "config = (k, v0) # kvs'"
      by (auto split: sum.splits)
    with Cons.IH Cons.prems kv False show ?thesis by auto
  qed
qed

lemma validate_entries_ok:
  "validate_entries kvs = Inr kvs' \<Longrightarrow>
   map fst kvs' = map fst kvs \<and> (\<forall>kv \<in> set kvs'. \<exists>s. snd kv = CStr s)"
proof (induction kvs arbitrary: kvs')
  case Nil
  then show ?case by simp
next
  case (Cons kv kvs)
  then obtain kv' kvs'' where e: "validate_entry kv = Inr kv'" and r: "validate_entries kvs = Inr kvs''"
    and k: "kvs' = kv' # kvs''"
    by (auto split: sum.splits)
  from e have "fst kv' = fst kv \<and> (\<exists>s. snd kv' = CStr s)"
    by (auto simp: validate_entry_def split: prod.splits if_splits sum.splits)
  with Cons.IH [OF r] k show ?case by auto
qed

lemma tado_schema_credentials:
  assumes "tado_schema v = Inr v'"
  shows "\<exists>conf u p. v' = CDict conf \<and> map_of conf CONF_USERNAME = Some (CStr u) \<and>
           map_of conf CONF_PASSWORD = Some (CStr p)"
proof -
  from assms obtain kvs kvs' where v: "v = CDict kvs" and r: "validate_entries kvs = Inr kvs'"
    and v': "v' = CDict kvs'" and keys: "CONF_USERNAME \<in> fst ` set kvs" "CONF_PASSWORD \<in> fst ` set kvs"
    by (auto simp: tado_schema_def split: cfg_value.splits sum.splits if_splits)
  from validate_entries_ok [OF r] have same: "fst ` set kvs' = fst ` set kvs"
    and str: "\<forall>kv \<in> set kvs'. \<exists>s. snd kv = CStr s"
    by (metis set_map)+
  have found: "\<exists>s. map_of kvs' k = Some (CStr s)" if "k \<in> fst ` set kvs" for k
  proof -
    from that same obtain x where x: "map_of kvs' k = Some x"
      by (metis map_of_eq_None_iff not_None_eq)
    then have "(k, x) \<in> set kvs'" by (rule map_of_SomeD)
    with str x show ?thesis by fastforce
  qed
  from found [OF keys(1)] found [OF keys(2)] v' show ?thesis by blast
qed

lemma validate_entries_eq:
  "validate_entries kvs =
     (if \<forall>(k, x) \<in> set kvs. (k = CONF_USERNAME \<or> k = CONF_PASSWORD) \<and> \<not> isl (cv_string x)
      then Inr (map (\<lambda>(k, x). (k, CStr (projr (cv_string x)))) kvs) else Inl Invalid)"
proof (induction kvs)
  case Nil
  then show ?case by simp
next
  case (Cons kv kvs)
  obtain k x where kv: "kv = (k, x)" by fastforce
  have "validate_entry (k, x) =
          (if (k = CONF_USERNAME \<or> k = CONF_PASSWORD) \<and> \<not> isl (cv_string x)
           then Inr (k, CStr (projr (cv_string x))) else Inl Invalid)"
    by (cases x) (simp_all add: validate_entry_def)
  with Cons kv show ?case by simp
qed

lemma tado_schema_lookup:
  assumes "tado_schema (CDict kvs) = Inr v'" and "map_of kvs k = Some x" and "cv_string x = Inr s"
  shows "cfg_get v' k = Inr (CStr s)"
proof -
  from assms(1) have "v' = CDict (map (\<lambda>(k, x). (k, CStr (projr (cv_string x)))) kvs)"
    by (simp add: tado_schema_def validate_entries_eq split: if_splits)
  with assms(2,3) show ?thesis by (simp add: cfg_get_def map_of_map)
qed

section \<open>Properties of setup\<close>

text \<open>
  C9: with credentials the client accepts, \<open>setup\<close> returns \<open>True\<close>, stores a fresh data
  store on that client under \<open>hass.data["tado_data"]\<close>, and requests exactly the
  \<open>sensor\<close> and \<open>climate\<close> platforms of the \<open>tado\<close> domain, in that order; nothing
  is logged.
\<close>

theorem setup_tado_success:
  assumes "map_of config DOMAIN = Some (CDict conf)"
    and "map_of conf CONF_USERNAME = Some u" and "map_of conf CONF_PASSWORD = Some p"
    and "login u p = Inr client"
  shows "setup_tado login h config =
           (Inr True, h\<lparr>hass_data := (hass_data h)(DATA_TADO \<mapsto> TadoDataStore_init client),
                       platform_loads := platform_loads h @ [(''sensor'', ''tado''), (''climate'', ''tado'')]\<rparr>)"
  using assms by (simp add: setup_simps)

theorem setup_tado_success_witness:
  "map_of demo_config DOMAIN = Some (CDict [(''username'', CStr ''me@example.com''), (''password'', CStr ''secret'')]) \<and>
   map_of [(''username'', CStr ''me@example.com''), (''password'', CStr ''secret'')] CONF_USERNAME =
     Some (CStr ''me@example.com'') \<and>
   map_of [(''username'', CStr ''me@example.com''), (''password'', CStr ''secret'')] CONF_PASSWORD =
     Some (CStr ''secret'') \<and>
   (\<lambda>u p. Inr demo_api) (CStr ''me@example.com'') (CStr ''secret'') = Inr demo_api \<and>
   setup_tado (\<lambda>u p. Inr demo_api) demo_hass demo_config =
     (Inr True, demo_hass\<lparr>hass_data := (hass_data demo_hass)(DATA_TADO \<mapsto> TadoDataStore_init demo_api),
                           platform_loads := platform_loads demo_hass @ [(''sensor'', ''tado''), (''climate'', ''tado'')]\<rparr>)"
proof -
  have h1: "map_of demo_config DOMAIN = Some (CDict [(''username'', CStr ''me@example.com''), (''password'', CStr ''secret'')])"
    by (simp add: demo_config_def DOMAIN_def)
  have h2: "map_of [(''username'', CStr ''me@example.com''), (''password'', CStr ''secret'')] CONF_USERNAME =
     Some (CStr ''me@example.com'')" by (simp add: CONF_USERNAME_def)
  have h3: "map_of [(''username'', CStr ''me@example.com''), (''password'', CStr ''secret'')] CONF_PASSWORD =
     Some (CStr ''secret'')" by (simp add: CONF_PASSWORD_def)
  have h4: "(\<lambda>u p. Inr demo_api) (CStr ''me@example.com'') (CStr ''secret'') = Inr demo_api" by simp
  from setup_tado_success [OF h1 h2 h3, of "\<lambda>u p. Inr demo_api", OF h4] h1 h2 h3 h4
  show ?thesis by simp
qed

text \<open>
  C10: when the client constructor fails with \<open>RuntimeError\<close> or \<open>HTTPError\<close>,
  \<open>setup\<close> returns \<open>False\<close>, logs the failure, stores no data store and requests no
  platform.
\<close>

theorem setup_tado_login_failure:
  assumes "map_of config DOMAIN = Some (CDict conf)"
    and "map_of conf CONF_USERNAME = Some u" and "map_of conf CONF_PASSWORD = Some p"
    and "login u p = Inl e" and "e = RuntimeError \<or> e = HTTPError"
  shows "setup_tado login h config = (Inr False, h\<lparr>hass_log := hass_log h @ [Log_setup_failed]\<rparr>)"
  using assms by (auto simp: setup_simps)

theorem setup_tado_login_failure_witness:
  "map_of demo_config DOMAIN = Some (CDict [(''username'', CStr ''me@example.com''), (''password'', CStr ''secret'')]) \<and>
   map_of [(''username'', CStr ''me@example.com''), (''password'', CStr ''secret'')] CONF_USERNAME =
     Some (CStr ''me@example.com'') \<and>
   map_of [(''username'', CStr ''me@example.com''), (''password'', CStr ''secret'')] CONF_PASSWORD =
     Some (CStr ''secret'') \<and>
   (\<lambda>u p. Inl HTTPError :: py_exception + (demo_cloud, overlay_request option) tado_api)
      (CStr ''me@example.com'') (CStr ''secret'') = Inl HTTPError \<and>
   setup_tado (\<lambda>u p. Inl HTTPError) demo_hass demo_config =
     (Inr False, demo_hass\<lparr>hass_log := hass_log demo_hass @ [Log_setup_failed]\<rparr>)"
proof -
  have h1: "map_of demo_config DOMAIN = Some (CDict [(''username'', CStr ''me@example.com''), (''password'', CStr ''secret'')])"
    by (simp add: demo_config_def DOMAIN_def)
  have h2: "map_of [(''username'', CStr ''me@example.com''), (''password'', CStr ''secret'')] CONF_USERNAME =
     Some (CStr ''me@example.com'')" by (simp add: CONF_USERNAME_def)
  have h3: "map_of [(''username'', CStr ''me@example.com''), (''password'', CStr ''secret'')] CONF_PASSWORD =
     Some (CStr ''secret'')" by (simp add: CONF_PASSWORD_def)
  have h4: "(\<lambda>u p. Inl HTTPError :: py_exception + (demo_cloud, overlay_request option) tado_api)
      (CStr ''me@example.com'') (CStr ''secret'') = Inl HTTPError" by simp
  have h5: "HTTPError = RuntimeError \<or> HTTPError = HTTPError" by simp
  from setup_tado_login_failure [OF h1 h2 h3 h4 h5, of demo_hass] h1 h2 h3 h4
  show ?thesis by simp
qed

text \<open>
  C15: extra keys are accepted only at the top level of the configuration. Inside the
  \<open>tado:\<close> block, any key other than \<open>username\<close> and \<open>password\<close> makes
  \<open>CONFIG_SCHEMA\<close> reject the whole configuration.
\<close>

theorem tado_schema_rejects_extra:
  assumes "(k, v) \<in> set kvs" and "k \<noteq> CONF_USERNAME" and "k \<noteq> CONF_PASSWORD"
  shows "CONFIG_SCHEMA ((DOMAIN, CDict kvs) # rest) = Inl Invalid"
proof -
  from assms have "validate_entries kvs = Inl Invalid" by (rule validate_entries_extra)
  then show ?thesis by (simp add: tado_schema_def)
qed

theorem tado_schema_rejects_extra_witness:
  "(''scan_interval'', CInt 30) \<in> set [(''username'', CStr ''me''), (''password'', CStr ''pw''), (''scan_interval'', CInt 30)] \<and>
   ''scan_interval'' \<noteq> CONF_USERNAME \<and> ''scan_interval'' \<noteq> CONF_PASSWORD \<and>
   CONFIG_SCHEMA [(DOMAIN, CDict [(''username'', CStr ''me''), (''password'', CStr ''pw''), (''scan_interval'', CInt 30)])]
     = Inl Invalid"
proof -
  have h1: "(''scan_interval'', CInt 30) \<in> set [(''username'', CStr ''me''), (''password'', CStr ''pw''), (''scan_interval'', CInt 30)]"
    by simp
  have h2: "''scan_interval'' \<noteq> CONF_USERNAME" and h3: "''scan_interval'' \<noteq> CONF_PASSWORD"
    by (simp_all add: CONF_USERNAME_def CONF_PASSWORD_def)
  from tado_schema_rejects_extra [OF h1 h2 h3, of "[]"] h1 h2 h3 show ?thesis by simp
qed

text \<open>
  C16: \<open>setup\<close> catches only \<open>RuntimeError\<close> and \<open>HTTPError\<close>. Any other exception
  of the client constructor (a connection error, a malformed answer) propagates out of
  \<open>setup\<close>, with no data store stored, no platform requested and nothing logged.
\<close>

theorem setup_tado_other_exception:
  assumes "map_of config DOMAIN = Some (CDict conf)"
    and "map_of conf CONF_USERNAME = Some u" and "map_of conf CONF_PASSWORD = Some p"
    and "login u p = Inl e" and "e \<noteq> RuntimeError" and "e \<noteq> HTTPError"
  shows "setup_tado login h config = (Inl e, h)"
  using assms by (simp add: setup_simps)

theorem setup_tado_other_exception_witness:
  "map_of demo_config DOMAIN = Some (CDict [(''username'', CStr ''me@example.com''), (''password'', CStr ''secret'')]) \<and>
   map_of [(''username'', CStr ''me@example.com''), (''password'', CStr ''secret'')] CONF_USERNAME =
     Some (CStr ''me@example.com'') \<and>
   map_of [(''username'', CStr ''me@example.com''), (''password'', CStr ''secret'')] CONF_PASSWORD =
     Some (CStr ''secret'') \<and>
   (\<lambda>u p. Inl OtherException :: py_exception + (demo_cloud, overlay_request option) tado_api)
      (CStr ''me@example.com'') (CStr ''secret'') = Inl OtherException \<and>
   OtherException \<noteq> RuntimeError \<and> OtherException \<noteq> HTTPError \<and>
   setup_tado (\<lambda>u p. Inl OtherException) demo_hass demo_config = (Inl OtherException, demo_hass)"
proof -
  have h1: "map_of demo_config DOMAIN = Some (CDict [(''username'', CStr ''me@example.com''), (''password'', CStr ''secret'')])"
    by (simp add: demo_config_def DOMAIN_def)
  have h2: "map_of [(''username'', CStr ''me@example.com''), (''password'', CStr ''secret'')] CONF_USERNAME =
     Some (CStr ''me@example.com'')" by (simp add: CONF_USERNAME_def)
  have h3: "map_of [(''username'', CStr ''me@example.com''), (''password'', CStr ''secret'')] CONF_PASSWORD =
     Some (CStr ''secret'')" by (simp add: CONF_PASSWORD_def)
  have h4: "(\<lambda>u p. Inl OtherException :: py_exception + (demo_cloud, overlay_request option) tado_api)
      (CStr ''me@example.com'') (CStr ''secret'') = Inl OtherException" by simp
  have h5: "OtherException \<noteq> RuntimeError" and h6: "OtherException \<noteq> HTTPError" by simp_all
  from setup_tado_other_exception [OF h1 h2 h3 h4 h5 h6, of demo_hass] h1 h2 h3 h4
  show ?thesis by simp
qed

text \<open>
  C22: the inner schema meets its contract \<open>tado_schema_spec\<close>: a \<open>tado:\<close> block is
  accepted exactly when it is a dictionary whose keys are \<open>username\<close> and
  \<open>password\<close>, both present and nothing else, with values \<open>cv.string\<close> accepts; it is
  then returned with both values converted to strings, in order, and rejected with
  \<open>Invalid\<close> otherwise.
\<close>

theorem tado_schema_correct: "tado_schema v = tado_schema_spec v"
proof (cases v)
  case (CDict kvs)
  have "(\<forall>(k, x) \<in> set kvs. k = CONF_USERNAME \<or> k = CONF_PASSWORD) \<and>
        CONF_USERNAME \<in> fst ` set kvs \<and> CONF_PASSWORD \<in> fst ` set kvs \<longleftrightarrow>
        fst ` set kvs = {CONF_USERNAME, CONF_PASSWORD}"
  proof -
    have "(\<forall>(k, x) \<in> set kvs. k = CONF_USERNAME \<or> k = CONF_PASSWORD) \<longleftrightarrow>
          fst ` set kvs \<subseteq> {CONF_USERNAME, CONF_PASSWORD}"
      by fastforce
    then show ?thesis by blast
  qed
  with CDict show ?thesis
    by (auto simp: tado_schema_def tado_schema_spec_def validate_entries_eq)
qed (simp_all add: tado_schema_def tado_schema_spec_def)

theorem tado_schema_correct_witness:
  "tado_schema (CDict [(''username'', CStr ''me''), (''password'', CInt 1234)]) =
     tado_schema_spec (CDict [(''username'', CStr ''me''), (''password'', CInt 1234)]) \<and>
   tado_schema_spec (CDict [(''username'', CStr ''me''), (''password'', CInt 1234)]) =
     Inr (CDict [(''username'', CStr ''me''), (''password'', CStr ''1234'')]) \<and>
   tado_schema (CDict [(''username'', CStr ''me''), (''name'', CStr ''x'')]) =
     tado_schema_spec (CDict [(''username'', CStr ''me''), (''name'', CStr ''x'')]) \<and>
   tado_schema_spec (CDict [(''username'', CStr ''me''), (''name'', CStr ''x'')]) = Inl Invalid"
proof -
  have s1: "tado_schema_spec (CDict [(''username'', CStr ''me''), (''password'', CInt 1234)]) =
     Inr (CDict [(''username'', CStr ''me''), (''password'', CStr ''1234'')])"
    by (simp add: tado_schema_spec_def CONF_USERNAME_def CONF_PASSWORD_def py_str_int_def insert_commute)
  have s2: "tado_schema_spec (CDict [(''username'', CStr ''me''), (''name'', CStr ''x'')]) = Inl Invalid"
    by (auto simp: tado_schema_spec_def CONF_USERNAME_def CONF_PASSWORD_def doubleton_eq_iff)
  from s1 s2 tado_schema_correct [of "CDict [(''username'', CStr ''me''), (''password'', CInt 1234)]"]
    tado_schema_correct [of "CDict [(''username'', CStr ''me''), (''name'', CStr ''x'')]"]
  show ?thesis by simp
qed

end
