(* ===== verification/Spec2Isabelle.thy ===== *)
theory Spec2Isabelle
  imports Setup
begin

text \<open>
  \<^bold>\<open>A verification development of the Tado integration of Home Assistant.\<close>

  \<^bold>\<open>The program.\<close> \<open>src/homeassistant/components/tado/__init__.py\<close> registers a Tado
  cloud account with Home Assistant. \<open>setup(hass, config)\<close> reads the credentials of
  the validated configuration (\<open>CONFIG_SCHEMA\<close>), logs in with the PyTado client, puts a
  \<open>TadoDataStore\<close> under \<open>hass.data["tado_data"]\<close> and asks the host to load the
  \<open>sensor\<close> and \<open>climate\<close> platforms. Those platforms (not in the sources) register
  sensors with \<open>add_sensor\<close>, read the cache with \<open>get_data\<close>, poll \<open>update\<close> and call
  the write operations. \<open>update\<close> is wrapped in \<open>Throttle(MIN_TIME_BETWEEN_UPDATES)\<close>
  of \<open>homeassistant.util\<close>; each write operation calls the client and then
  \<open>update(no_throttle=True)\<close>.

  \<^bold>\<open>Library layout.\<close>
  \<^item> \<open>Prelude\<close>: timestamps (\<open>int\<close> microseconds), Tado and data ids, the Python
    exceptions that can cross the code (\<open>py_exception\<close>), the records of \<open>_LOGGER\<close>
    (\<open>log_entry\<close>), Python's insertion-ordered dictionary assignment (\<open>dict_set\<close>) and
    the map lemmas the components share (collection \<open>dict_simps\<close>).
  \<^item> \<open>Throttle\<close>: the decorator, modelled from its documented behaviour since it is not
    under \<open>src/\<close>: a lock and the last execution time (\<open>throttle_state\<close>), the
    decision \<open>throttle_due\<close> and the wrapper \<open>throttle_call\<close>, generic in the host
    through a getter and setter; lemmas for each branch, the lock released on every
    path, the timestamp advanced only by a successful execution.
  \<^item> \<open>Tado_Client\<close>: the client as an interface record \<open>tado_api\<close> over an opaque
    remote state \<open>'w\<close> and payloads \<open>'p\<close>; every store lemma holds for every client.
    A concrete client \<open>demo_api\<close> is the fixture the witnesses run on.
  \<^item> \<open>Data_Store\<close>: \<open>TadoDataStore\<close> as a record (client, insertion-ordered sensor
    registry, cache, throttle record), extended to \<open>runtime\<close> with the remote state
    and the log. The refresh loop is \<open>zone_query\<close>, \<open>device_query\<close>,
    \<open>query_sensor\<close> (the \<open>try\<close> block), \<open>update_entry\<close> (one iteration with its
    \<open>except RuntimeError\<close>), \<open>update_entries\<close> (the loop), \<open>update_body\<close> and the
    throttled \<open>update\<close>; then \<open>add_sensor\<close>, \<open>get_data\<close>, the pass-through reads and
    \<open>reset_zone_overlay\<close>, \<open>set_zone_overlay\<close>, \<open>set_zone_off\<close> with their forced
    refresh. An operation returns its result or the exception it raises together with the
    state it leaves, so that a raised exception keeps earlier mutations, as in Python.
    The abstract specification of a refresh is \<open>refresh_spec\<close> (every registered
    sensor mapped to its fresh read, \<open>None\<close> on failure); the well-formedness invariant
    is \<open>store_inv\<close> (distinct registry keys, cache keys equal registry keys, lock free).
  \<^item> \<open>Setup\<close>: the constants, \<open>CONFIG_SCHEMA\<close> as a validation function over
    configuration values (with \<open>cv.string\<close>), the part of the host the component
    touches (\<open>hass\<close>), \<open>load_platform\<close>, and \<open>setup_tado\<close> (the Python \<open>setup\<close>,
    renamed because \<open>setup\<close> is an Isabelle keyword), with the client constructor as a
    parameter \<open>login\<close>. The documented contract of the inner schema is
    \<open>tado_schema_spec\<close>.
  \<^item> This theory: the operations the platforms invoke as a datatype \<open>store_op\<close> with a
    step function, the reachable states of a store (an inductive relation that also lets
    the remote state change between operations), the rate-limiting property of a
    sequence of polls, and the link from the validated configuration to \<open>setup\<close>.

  \<^bold>\<open>What the lemmas show.\<close>
  \<^item> Throttle (\<open>Data_Store\<close>, C1, C11, and C13 here): an unforced call within ten
    seconds of the end of the last pass is a no-op, with a strict ten-second bound; the
    passes of any sequence of polls are spaced by more than ten seconds.
  \<^item> Refresh (C2, C4, C5, C12, C19): an effective pass refines \<open>refresh_spec\<close> and
    queries the client once per registered sensor, in registry order; a
    \<open>RuntimeError\<close> is isolated to its sensor and logged; any other exception
    (\<open>IndexError\<close> of an empty device list, \<open>HTTPError\<close>) aborts the pass, leaves
    later sensors stale and does not advance the throttle; a sensor with both keys caches
    its zone read.
  \<^item> Writes (C3, C17, C18, C20, C21): each write refreshes whatever the window, and so
    restarts the window; a write the client rejects raises and skips the refresh.
  \<^item> Registry and cache (C7, C8): \<open>add_sensor\<close> resets the cache entry of the id it
    registers; \<open>get_data\<close> returns the placeholder for unregistered ids.
  \<^item> Invariant (C6): every operation keeps \<open>store_inv\<close>, so it holds in all
    reachable states, with the remote state changing arbitrarily between operations.
  \<^item> Setup and schema (C9, C10, C14, C15, C16, C22): \<open>setup\<close> registers exactly the
    two platforms on success, nothing on an authentication failure, and lets other
    exceptions escape; on a configuration \<open>CONFIG_SCHEMA\<close> accepts, it logs in with the
    converted username and password, in that order, and fails on nothing else; the inner
    schema equals its declarative contract \<open>tado_schema_spec\<close> (exactly the two keys,
    values converted by \<open>cv.string\<close>), so extra keys inside the \<open>tado\<close> block are
    rejected.

  \<^bold>\<open>Bounds and time.\<close> No fuel is needed: the refresh loop is structural recursion over
  the snapshot of the registry, and every other operation is straight-line code. Times
  are \<open>int\<close> microseconds, the resolution of \<open>datetime\<close>;
  \<open>MIN_TIME_BETWEEN_UPDATES\<close> is \<open>10 * 1000000\<close>. The two \<open>utcnow()\<close> readings of
  the decorator (the check before the method, the timestamp after it) are separate
  arguments of \<open>update\<close>.

  \<^bold>\<open>Not modelled.\<close> The PyTado library (an interface only), the sensor and climate
  platforms and the host's loader (outside the sources), \<open>setDebugging\<close> (no effect the
  component observes), the text of log messages (their call sites and arguments are
  modelled), and concurrency: the host calls the component from one thread, so the
  throttle's lock is only ever observed free between calls (the model keeps it and proves
  that).
\<close>

section \<open>The operations the platforms invoke\<close>

datatype store_op =
    Op_add_sensor data_id sensor
  | Op_update bool time time
  | Op_reset_zone_overlay tado_id time
  | Op_set_zone_overlay tado_id string "real option" "int option" string "string option" time
  | Op_set_zone_off tado_id string string time

fun store_step :: "store_op \<Rightarrow> ('w, 'p) runtime \<Rightarrow> ('w, 'p) runtime" where
  "store_step (Op_add_sensor k sn) s = add_sensor k sn s"
| "store_step (Op_update nt tc td) s = snd (update nt tc td s)"
| "store_step (Op_reset_zone_overlay z t) s = snd (reset_zone_overlay z t s)"
| "store_step (Op_set_zone_overlay z om tp du dt m t) s = snd (set_zone_overlay z om tp du dt m t s)"
| "store_step (Op_set_zone_off z om dt t) s = snd (set_zone_off z om dt t s)"

text \<open>The store \<open>setup\<close> creates, with the remote state and an empty log.\<close>

definition runtime_init :: "('w, 'p) tado_api \<Rightarrow> 'w \<Rightarrow> ('w, 'p) runtime" where
  "runtime_init api w =
     TadoDataStore.extend (TadoDataStore_init api) (runtime.fields w [])"

text \<open>
  The reachable states: from the initial store, any operation of the platforms, and any
  change of the remote state by the world outside (another app, the thermostat itself).
\<close>

inductive reachable :: "('w, 'p) tado_api \<Rightarrow> 'w \<Rightarrow> ('w, 'p) runtime \<Rightarrow> bool"
  for api :: "('w, 'p) tado_api" and w0 :: 'w where
  init: "reachable api w0 (runtime_init api w0)"
| step: "reachable api w0 s \<Longrightarrow> reachable api w0 (store_step op s)"
| remote: "reachable api w0 s \<Longrightarrow> reachable api w0 (s\<lparr>world := w'\<rparr>)"

section \<open>A sequence of polls\<close>

text \<open>
  The host polling \<open>update\<close> without \<open>no_throttle\<close>, once per pair of clock readings;
  the result lists the readings of the calls that executed a pass. An exception is
  reported by the host and the polling goes on.
\<close>

fun update_calls :: "(time \<times> time) list \<Rightarrow> ('w, 'p) runtime \<Rightarrow> (time \<times> time) list \<times> ('w, 'p) runtime" where
  "update_calls [] s = ([], s)"
| "update_calls ((tc, td) # cs) s =
     (case update False tc td s of
        (Inr (Ran _), s') \<Rightarrow> (case update_calls cs s' of (ex, s'') \<Rightarrow> ((tc, td) # ex, s''))
      | (_, s') \<Rightarrow> update_calls cs s')"

text \<open>Two executed passes are spaced when the second began more than the window after the first ended.\<close>

definition spaced :: "time \<times> time \<Rightarrow> time \<times> time \<Rightarrow> bool" where
  "spaced x y \<longleftrightarrow> MIN_TIME_BETWEEN_UPDATES < fst y - snd x"

section \<open>Reachable states\<close>

lemma store_inv_runtime_init: "store_inv (runtime_init api w)"
  by (simp add: store_inv_def runtime_init_def TadoDataStore_init_def throttle_init_def
      TadoDataStore.defs runtime.defs)

lemma snd_keeps:
  "(\<And>r s'. f s = (r, s') \<Longrightarrow> P s') \<Longrightarrow> P (snd (f s))"
  by (cases "f s") simp

lemma store_step_inv:
  assumes inv: "store_inv s"
  shows "store_inv (store_step op s)"
proof (cases op)
  case (Op_add_sensor k sn)
  with inv show ?thesis by (simp add: add_sensor_inv)
next
  case (Op_update nt tc td)
  have "store_inv (snd (update nt tc td s))" by (rule snd_keeps) (rule update_inv [OF inv])
  with Op_update show ?thesis by simp
next
  case (Op_reset_zone_overlay z t)
  have "store_inv (snd (reset_zone_overlay z t s))"
    by (rule snd_keeps) (rule reset_zone_overlay_inv [OF inv])
  with Op_reset_zone_overlay show ?thesis by simp
next
  case (Op_set_zone_overlay z om tp du dt m t)
  have "store_inv (snd (set_zone_overlay z om tp du dt m t s))"
    by (rule snd_keeps) (rule set_zone_overlay_inv [OF inv])
  with Op_set_zone_overlay show ?thesis by simp
next
  case (Op_set_zone_off z om dt t)
  have "store_inv (snd (set_zone_off z om dt t s))"
    by (rule snd_keeps) (rule set_zone_off_inv [OF inv])
  with Op_set_zone_off show ?thesis by simp
qed

text \<open>
  C6: every reachable store is well formed: its registry has distinct keys, exactly the
  registered ids have a cache entry, and no throttled call holds the lock.
\<close>

theorem reachable_store_inv:
  assumes "reachable api w0 s"
  shows "store_inv s"
  using assms
proof (induction rule: reachable.induct)
  case init
  show ?case by (rule store_inv_runtime_init)
next
  case (step s op)
  from step.IH show ?case by (rule store_step_inv)
next
  case (remote s w')
  then show ?case by simp
qed

theorem reachable_store_inv_witness:
  "reachable demo_api demo_world
     (store_step (Op_update False 0 5)
       (store_step (Op_add_sensor ''zone Living 1'' demo_zone) (runtime_init demo_api demo_world))) \<and>
   store_inv (store_step (Op_update False 0 5)
       (store_step (Op_add_sensor ''zone Living 1'' demo_zone) (runtime_init demo_api demo_world)))"
proof -
  have r: "reachable demo_api demo_world
     (store_step (Op_update False 0 5)
       (store_step (Op_add_sensor ''zone Living 1'' demo_zone) (runtime_init demo_api demo_world)))"
    by (intro reachable.step reachable.init)
  from r reachable_store_inv [OF r] show ?thesis by simp
qed

section \<open>Rate limiting of a sequence of polls\<close>

lemma update_throttled_same: "update nt tc td s = (Inr Throttled, s') \<Longrightarrow> s' = s"
  by (auto simp: update_def throttle_call_def Let_def split: if_splits prod.splits sum.splits)

lemma update_not_ran_throttle:
  assumes "update nt tc td s = (r, s')" and "\<forall>u. r \<noteq> Inr (Ran u)"
  shows "throttle s' = throttle s"
proof (cases r)
  case (Inl e)
  with assms show ?thesis by (simp add: update_raised_record)
next
  case (Inr x)
  with assms have "x = Throttled" by (cases x) auto
  with Inr assms have "update nt tc td s = (Inr Throttled, s')" by simp
  then have "s' = s" by (rule update_throttled_same)
  then show ?thesis by simp
qed

lemma update_ran_after:
  "update False tc td s = (Inr (Ran u), s') \<Longrightarrow> last_call (throttle s) = Some d \<Longrightarrow>
   MIN_TIME_BETWEEN_UPDATES < tc - d"
  by (auto simp: update_def throttle_call_def throttle_due_def Let_def split: if_splits prod.splits sum.splits)

lemma successively_spaced_head:
  "successively spaced ((a, d) # xs) = successively spaced ((b, d) # xs)"
  by (cases xs) (simp_all add: spaced_def)

lemma update_calls_spaced_after:
  "successively spaced
     (case last_call (throttle s) of
        None \<Rightarrow> fst (update_calls cs s)
      | Some d \<Rightarrow> (d, d) # fst (update_calls cs s))"
proof (induction cs arbitrary: s)
  case Nil
  show ?case by (simp split: option.split)
next
  case (Cons c cs)
  obtain tc td where c: "c = (tc, td)" by fastforce
  obtain r s' where u: "update False tc td s = (r, s')" by fastforce
  show ?case
  proof (cases "\<exists>x. r = Inr (Ran x)")
    case True
    then obtain x where r: "r = Inr (Ran x)" by blast
    with u have "throttle s' = \<lparr>lock_held = False, last_call = Some td\<rparr>" by (simp add: update_ran_record)
    with Cons.IH [of s'] have ih: "successively spaced ((td, td) # fst (update_calls cs s'))" by simp
    then have tail: "successively spaced ((tc, td) # fst (update_calls cs s'))"
      using successively_spaced_head [of tc td "fst (update_calls cs s')" td] by simp
    have calls: "fst (update_calls (c # cs) s) = (tc, td) # fst (update_calls cs s')"
      using u r c by (simp split: prod.split)
    show ?thesis
    proof (cases "last_call (throttle s)")
      case None
      with tail calls show ?thesis by simp
    next
      case (Some d)
      with u r have "MIN_TIME_BETWEEN_UPDATES < tc - d" by (simp add: update_ran_after)
      with Some tail calls show ?thesis by (simp add: spaced_def)
    qed
  next
    case False
    then have "\<forall>x. r \<noteq> Inr (Ran x)" by blast
    with u have th: "throttle s' = throttle s" by (rule update_not_ran_throttle)
    have calls: "fst (update_calls (c # cs) s) = fst (update_calls cs s')"
      using u False c by (auto split: sum.split throttled.split)
    from Cons.IH [of s'] show ?thesis by (simp only: th calls)
  qed
qed

text \<open>
  C13: repeated polls collapse into at most one refresh pass per window: in any sequence
  of unforced \<open>update\<close> calls (whatever their clock readings, whatever exceptions some
  of them raise), each pass that executes begins more than \<open>MIN_TIME_BETWEEN_UPDATES\<close>
  after the end of the previous pass that executed.
\<close>

theorem update_calls_spaced: "successively spaced (fst (update_calls cs s))"
proof -
  have "successively spaced
     (case last_call (throttle s) of
        None \<Rightarrow> fst (update_calls cs s)
      | Some d \<Rightarrow> (d, d) # fst (update_calls cs s))"
    by (rule update_calls_spaced_after)
  then show ?thesis by (auto split: option.splits dest: successively_Cons [THEN iffD1])
qed

section \<open>From the validated configuration to setup\<close>

text \<open>
  C14: on a configuration that \<open>CONFIG_SCHEMA\<close> accepted, whose \<open>tado\<close> block gave
  the raw values \<open>ru\<close> and \<open>rp\<close> for \<open>username\<close> and \<open>password\<close>, \<open>setup\<close>
  never fails on a missing key or a wrong type: it calls the client constructor with
  \<open>cv.string\<close> of the configured username first and of the configured password second,
  and its outcome is decided by that call alone: \<open>True\<close> if it returns a client,
  \<open>False\<close> if it raises \<open>RuntimeError\<close> or \<open>HTTPError\<close>, and the constructor's
  exception otherwise.
\<close>

theorem validated_config_setup:
  assumes valid: "CONFIG_SCHEMA raw = Inr config"
    and block: "map_of raw DOMAIN = Some (CDict kvs)"
    and un: "map_of kvs CONF_USERNAME = Some ru" and u: "cv_string ru = Inr u"
    and pw: "map_of kvs CONF_PASSWORD = Some rp" and p: "cv_string rp = Inr p"
  shows "fst (setup_tado login h config) =
           (case login (CStr u) (CStr p) of
              Inl e \<Rightarrow> if e = RuntimeError \<or> e = HTTPError then Inr False else Inl e
            | Inr c \<Rightarrow> Inr True)"
proof -
  from config_schema_domain [OF valid block] obtain v'
    where sch: "tado_schema (CDict kvs) = Inr v'" and cfg: "map_of config DOMAIN = Some v'"
    by blast
  from tado_schema_lookup [OF sch un u] tado_schema_lookup [OF sch pw p] cfg show ?thesis
    by (simp add: setup_tado_def cfg_get_def split: sum.split)
qed

theorem validated_config_setup_witness:
  "CONFIG_SCHEMA [(''tado'', CDict [(''username'', CStr ''me''), (''password'', CInt 1234)])] =
     Inr [(''tado'', CDict [(''username'', CStr ''me''), (''password'', CStr ''1234'')])] \<and>
   map_of [(''tado'', CDict [(''username'', CStr ''me''), (''password'', CInt 1234)])] DOMAIN =
     Some (CDict [(''username'', CStr ''me''), (''password'', CInt 1234)]) \<and>
   map_of [(''username'', CStr ''me''), (''password'', CInt 1234)] CONF_USERNAME = Some (CStr ''me'') \<and>
   cv_string (CStr ''me'') = Inr ''me'' \<and>
   map_of [(''username'', CStr ''me''), (''password'', CInt 1234)] CONF_PASSWORD = Some (CInt 1234) \<and>
   cv_string (CInt 1234) = Inr ''1234'' \<and>
   fst (setup_tado (\<lambda>u p. if u = CStr ''me'' \<and> p = CStr ''1234'' then Inr demo_api else Inl HTTPError)
          demo_hass [(''tado'', CDict [(''username'', CStr ''me''), (''password'', CStr ''1234'')])]) = Inr True"
proof -
  have h1: "CONFIG_SCHEMA [(''tado'', CDict [(''username'', CStr ''me''), (''password'', CInt 1234)])] =
     Inr [(''tado'', CDict [(''username'', CStr ''me''), (''password'', CStr ''1234'')])]"
    by (simp add: tado_schema_def validate_entry_def py_str_int_def DOMAIN_def CONF_USERNAME_def
        CONF_PASSWORD_def)
  have h2: "map_of [(''tado'', CDict [(''username'', CStr ''me''), (''password'', CInt 1234)])] DOMAIN =
     Some (CDict [(''username'', CStr ''me''), (''password'', CInt 1234)])" by (simp add: DOMAIN_def)
  have h3: "map_of [(''username'', CStr ''me''), (''password'', CInt 1234)] CONF_USERNAME = Some (CStr ''me'')"
    by (simp add: CONF_USERNAME_def)
  have h4: "cv_string (CStr ''me'') = Inr ''me''" by simp
  have h5: "map_of [(''username'', CStr ''me''), (''password'', CInt 1234)] CONF_PASSWORD = Some (CInt 1234)"
    by (simp add: CONF_PASSWORD_def)
  have h6: "cv_string (CInt 1234) = Inr ''1234''" by (simp add: py_str_int_def)
  from validated_config_setup [OF h1 h2 h3 h4 h5 h6,
      of "\<lambda>u p. if u = CStr ''me'' \<and> p = CStr ''1234'' then Inr demo_api else Inl HTTPError" demo_hass]
    h1 h2 h3 h4 h5 h6
  show ?thesis by simp
qed

end
